theory Spec2Isabelle
  imports Complex_Main "HOL-Library.Word" "HOL-Library.Multiset" "HOL-Library.Signed_Division"
begin

section \<open>The append buffer \<open>clue::Vec\<close> (Vec.h)\<close>

text \<open>
  \<open>Vec<T>\<close> holds a raw pointer \<open>m_data\<close> to a backing array and two \<open>uint32_t\<close>
  counters. The backing array is modelled as a map from slot index to the element
  written there; \<open>None\<close> is a slot of the allocation that was never written
  (\<open>new T[size]\<close> leaves the cells without a defined content).
\<close>

record 'a Vec =
  m_data :: "32 word \<Rightarrow> 'a option"
  m_size :: "32 word"
  m_capacity :: "32 word"

text \<open>\<open>Vec(uint32_t size) : m_data(new T[size]), m_size{0}, m_capacity{size}\<close>\<close>

definition Vec_new :: "32 word \<Rightarrow> 'a Vec" where
  "Vec_new sz = \<lparr>m_data = (\<lambda>_. None), m_size = 0, m_capacity = sz\<rparr>"

text \<open>
  \<open>push_back_unsafe\<close> returns \<open>int\<close>: the \<open>uint32_t previousSize\<close> is converted to a
  32-bit signed integer on return, which is \<open>sint\<close> of the word.
\<close>

definition push_back_unsafe :: "'a Vec \<Rightarrow> 'a \<Rightarrow> 'a Vec \<times> int" where
  "push_back_unsafe v element =
     (let previousSize = m_size v;
          v1 = v\<lparr>m_size := m_size v + 1\<rparr>
      in if previousSize < m_capacity v1
         then (v1\<lparr>m_data := (m_data v1)(previousSize := Some element)\<rparr>, sint previousSize)
         else (v1\<lparr>m_size := m_size v1 - 1\<rparr>, -1))"

text \<open>
  \<open>push_back\<close> is the same body with \<open>atomicAdd\<close> (which returns the old value) and
  \<open>atomicSub\<close>; this is its behaviour when one caller runs at a time. The
  \<open>assert(("Too few elemets reserved"))\<close> tests a string literal, which is never null,
  so it does nothing.
\<close>

definition push_back :: "'a Vec \<Rightarrow> 'a \<Rightarrow> 'a Vec \<times> int" where
  "push_back v element =
     (let previousSize = m_size v;
          v1 = v\<lparr>m_size := m_size v + 1\<rparr>
      in if previousSize < m_capacity v1
         then (v1\<lparr>m_data := (m_data v1)(previousSize := Some element)\<rparr>, sint previousSize)
         else (v1\<lparr>m_size := m_size v1 - 1\<rparr>, -1))"

text \<open>\<open>reset\<close>, \<open>resize(int size)\<close> (whose argument is converted to \<open>uint32_t\<close> by the
  assignment) and \<open>reserve\<close>.\<close>

definition reset :: "'a Vec \<Rightarrow> 'a Vec" where
  "reset v = v\<lparr>m_size := 0\<rparr>"

definition resize_size :: "'a Vec \<Rightarrow> 32 word \<Rightarrow> 'a Vec" where
  "resize_size v sz = v\<lparr>m_size := sz\<rparr>"

definition reserve :: "'a Vec \<Rightarrow> 32 word \<Rightarrow> 'a Vec" where
  "reserve v sz = v\<lparr>m_capacity := sz, m_data := (\<lambda>_. None)\<rparr>"

text \<open>A run of appends, as a caller filling the buffer does.\<close>

definition push_all :: "'a Vec \<Rightarrow> 'a list \<Rightarrow> 'a Vec" where
  "push_all v es = foldl (\<lambda>w e. fst (push_back_unsafe w e)) v es"

section \<open>Floating-point numbers\<close>

text \<open>
  The values of \<open>float\<close> (IEEE binary32) and \<open>double\<close> (binary64): a finite value is the
  real number it denotes, beside the two infinities and NaN. The two zeros are not told
  apart. An operation computes the exact result and rounds it to the format of its
  operands, to nearest with ties to the even significand (the default rounding mode, with
  every \<open>float\<close> expression evaluated in \<open>float\<close>); a result beyond the largest finite
  value becomes an infinity.
\<close>

datatype fp = NaN | MInf | Fin real | PInf

text \<open>A linear order over all the values, with NaN placed below the rest. The
  comparisons of the code are \<open>fp_less\<close>, \<open>fp_le\<close> and \<open>fp_eq\<close> below, which are false
  as soon as an operand is a NaN.\<close>

instantiation fp :: linorder
begin

fun less_eq_fp :: "fp \<Rightarrow> fp \<Rightarrow> bool" where
  "less_eq_fp NaN b = True"
| "less_eq_fp MInf NaN = False"
| "less_eq_fp MInf b = True"
| "less_eq_fp (Fin x) (Fin y) = (x \<le> y)"
| "less_eq_fp (Fin x) PInf = True"
| "less_eq_fp (Fin x) b = False"
| "less_eq_fp PInf PInf = True"
| "less_eq_fp PInf b = False"

definition less_fp :: "fp \<Rightarrow> fp \<Rightarrow> bool" where
  "less_fp a b \<longleftrightarrow> a \<le> b \<and> \<not> b \<le> a"

instance
proof
  fix a b c :: fp
  show "a < b \<longleftrightarrow> a \<le> b \<and> \<not> b \<le> a"
    by (simp add: less_fp_def)
  show "a \<le> a"
    by (cases a) simp_all
  show "a \<le> b \<Longrightarrow> b \<le> c \<Longrightarrow> a \<le> c"
    by (cases a; cases b; cases c) simp_all
  show "a \<le> b \<Longrightarrow> b \<le> a \<Longrightarrow> a = b"
    by (cases a; cases b) simp_all
  show "a \<le> b \<or> b \<le> a"
    by (cases a; cases b) auto
qed

end

definition fp_less :: "fp \<Rightarrow> fp \<Rightarrow> bool" where
  "fp_less a b \<longleftrightarrow> a \<noteq> NaN \<and> b \<noteq> NaN \<and> a < b"

definition fp_le :: "fp \<Rightarrow> fp \<Rightarrow> bool" where
  "fp_le a b \<longleftrightarrow> a \<noteq> NaN \<and> b \<noteq> NaN \<and> a \<le> b"

definition fp_eq :: "fp \<Rightarrow> fp \<Rightarrow> bool" where
  "fp_eq a b \<longleftrightarrow> a \<noteq> NaN \<and> b \<noteq> NaN \<and> a = b"

text \<open>\<open>FLT_MAX\<close> is \<open>std::numeric_limits<float>::max()\<close>, that is \<open>2^128 - 2^104\<close>, and
  \<open>DBL_MAX\<close> the largest finite \<open>double\<close>.\<close>

definition FLT_MAX :: real where
  "FLT_MAX = 340282346638528859811704183484516925440"

definition DBL_MAX :: real where
  "DBL_MAX = (2 ^ 53 - 1) * 2 ^ 971"

text \<open>
  Rounding to a format of precision \<open>p\<close> bits, least normal exponent \<open>emin\<close> and largest
  finite value \<open>big\<close>. \<open>exponent x\<close> is the integer part of the binary logarithm of
  \<open>\<bar>x\<bar>\<close>, read off the number of bits of an integer; below \<open>emin\<close> the spacing of the
  subnormal numbers is used.
\<close>

fun bit_length :: "nat \<Rightarrow> nat" where
  "bit_length k = (if k = 0 then 0 else Suc (bit_length (k div 2)))"

declare bit_length.simps [simp del]

definition pow2 :: "int \<Rightarrow> real" where
  "pow2 e = (if 0 \<le> e then 2 ^ nat e else 1 / 2 ^ nat (- e))"

definition exponent :: "real \<Rightarrow> int" where
  "exponent x =
     (if 1 \<le> \<bar>x\<bar> then int (bit_length (nat \<lfloor>\<bar>x\<bar>\<rfloor>)) - 1
      else - int (bit_length (nat (\<lceil>1 / \<bar>x\<bar>\<rceil> - 1))))"

definition round_even :: "real \<Rightarrow> int" where
  "round_even q =
     (let f = \<lfloor>q\<rfloor>; d = q - of_int f
      in if d < 1 / 2 then f else if 1 / 2 < d then f + 1 else if even f then f else f + 1)"

definition round_to :: "nat \<Rightarrow> int \<Rightarrow> real \<Rightarrow> real \<Rightarrow> fp" where
  "round_to p emin big x =
     (if x = 0 then Fin 0
      else (let e = max (exponent x) emin;
                u = pow2 (e - int p + 1);
                y = of_int (round_even (x / u)) * u
            in if big < y then PInf else if y < - big then MInf else Fin y))"

definition to_float :: "real \<Rightarrow> fp" where
  "to_float = round_to 24 (- 126) FLT_MAX"

definition to_double :: "real \<Rightarrow> fp" where
  "to_double = round_to 53 (- 1022) DBL_MAX"

text \<open>The operations, each with the rounding \<open>rnd\<close> of the format it is computed in.\<close>

fun fp_neg :: "fp \<Rightarrow> fp" where
  "fp_neg NaN = NaN"
| "fp_neg MInf = PInf"
| "fp_neg (Fin x) = Fin (- x)"
| "fp_neg PInf = MInf"

fun fp_add :: "(real \<Rightarrow> fp) \<Rightarrow> fp \<Rightarrow> fp \<Rightarrow> fp" where
  "fp_add rnd (Fin x) (Fin y) = rnd (x + y)"
| "fp_add rnd NaN b = NaN"
| "fp_add rnd a NaN = NaN"
| "fp_add rnd PInf MInf = NaN"
| "fp_add rnd MInf PInf = NaN"
| "fp_add rnd PInf b = PInf"
| "fp_add rnd a PInf = PInf"
| "fp_add rnd MInf b = MInf"
| "fp_add rnd a MInf = MInf"

definition fp_sub :: "(real \<Rightarrow> fp) \<Rightarrow> fp \<Rightarrow> fp \<Rightarrow> fp" where
  "fp_sub rnd a b = fp_add rnd a (fp_neg b)"

text \<open>The sign of a value that is not a NaN.\<close>

fun fp_sign :: "fp \<Rightarrow> int" where
  "fp_sign NaN = 0"
| "fp_sign MInf = - 1"
| "fp_sign (Fin x) = (if x < 0 then - 1 else if x = 0 then 0 else 1)"
| "fp_sign PInf = 1"

fun fp_mul :: "(real \<Rightarrow> fp) \<Rightarrow> fp \<Rightarrow> fp \<Rightarrow> fp" where
  "fp_mul rnd (Fin x) (Fin y) = rnd (x * y)"
| "fp_mul rnd NaN b = NaN"
| "fp_mul rnd a NaN = NaN"
| "fp_mul rnd a b =
     (if fp_sign a * fp_sign b = 0 then NaN
      else if 0 < fp_sign a * fp_sign b then PInf else MInf)"

text \<open>Division, with a zero divisor taken as \<open>+0\<close> (the only zero divisor of the code is
  the conversion of the integer 0).\<close>

fun fp_div :: "(real \<Rightarrow> fp) \<Rightarrow> fp \<Rightarrow> fp \<Rightarrow> fp" where
  "fp_div rnd (Fin x) (Fin y) =
     (if y = 0 then (if x = 0 then NaN else if 0 < x then PInf else MInf) else rnd (x / y))"
| "fp_div rnd NaN b = NaN"
| "fp_div rnd a NaN = NaN"
| "fp_div rnd (Fin x) b = Fin 0"
| "fp_div rnd a (Fin y) = (if y < 0 then fp_neg a else a)"
| "fp_div rnd a b = NaN"

fun fp_sqrt :: "(real \<Rightarrow> fp) \<Rightarrow> fp \<Rightarrow> fp" where
  "fp_sqrt rnd (Fin x) = (if x < 0 then NaN else rnd (sqrt x))"
| "fp_sqrt rnd PInf = PInf"
| "fp_sqrt rnd a = NaN"

text \<open>The conversion of a value to another format.\<close>

fun fp_conv :: "(real \<Rightarrow> fp) \<Rightarrow> fp \<Rightarrow> fp" where
  "fp_conv rnd (Fin x) = rnd x"
| "fp_conv rnd a = a"

text \<open>
  \<open>std::pow\<close> on \<open>double\<close>s, for a finite base \<open>x\<close> and the exponents that the code
  passes: 1, an infinity, or the \<open>double\<close> nearest to \<open>1 / Ndim\<close>, which is no integer.
  The result is taken as the exact power, rounded.
\<close>

definition pow_double :: "real \<Rightarrow> fp \<Rightarrow> fp" where
  "pow_double x y =
     (case y of
        PInf \<Rightarrow> (if \<bar>x\<bar> < 1 then Fin 0 else if \<bar>x\<bar> = 1 then Fin 1 else PInf)
      | Fin e \<Rightarrow>
          (if e = 1 then Fin x
           else if x < 0 then NaN
           else if x = 0 then Fin 0
           else to_double (x powr e))
      | MInf \<Rightarrow> (if \<bar>x\<bar> < 1 then PInf else if \<bar>x\<bar> = 1 then Fin 1 else Fin 0)
      | NaN \<Rightarrow> (if x = 1 then Fin 1 else NaN))"

section \<open>The clustering engine \<open>ClusteringAlgo<Ndim>\<close> (Clustering.h)\<close>

subsection \<open>Errors and checked array access\<close>

text \<open>
  What C++ leaves undefined or answers with an exception is an error value of the model:
  an index outside a \<open>std::vector\<close> (\<open>OutOfRange\<close>), dereferencing the \<open>end()\<close> that
  \<open>std::max_element\<close> returns on an empty range (\<open>EmptyRange\<close>), integer division by
  zero or \<open>INT_MIN / -1\<close> (\<open>DivisionError\<close>), converting to \<open>int\<close> a NaN, an infinity or
  a value outside the range of \<open>int\<close> (\<open>FloatToInt\<close>) and \<open>resize\<close> to a negative length
  (\<open>LengthError\<close>).
\<close>

datatype error = OutOfRange | EmptyRange | DivisionError | FloatToInt | LengthError

definition bind :: "error + 'a \<Rightarrow> ('a \<Rightarrow> error + 'b) \<Rightarrow> error + 'b" where
  "bind m f = (case m of Inl e \<Rightarrow> Inl e | Inr x \<Rightarrow> f x)"

definition read_at :: "'a list \<Rightarrow> int \<Rightarrow> error + 'a" where
  "read_at xs i = (if 0 \<le> i \<and> i < int (length xs) then Inr (xs ! nat i) else Inl OutOfRange)"

definition write_at :: "'a list \<Rightarrow> int \<Rightarrow> 'a \<Rightarrow> error + 'a list" where
  "write_at xs i v = (if 0 \<le> i \<and> i < int (length xs) then Inr (xs[nat i := v]) else Inl OutOfRange)"

text \<open>A \<open>for\<close> loop over a range: the body runs on each element in turn, on the state
  the previous iteration left, and the first error ends the loop.\<close>

fun forEach :: "'a list \<Rightarrow> ('a \<Rightarrow> 's \<Rightarrow> error + 's) \<Rightarrow> 's \<Rightarrow> error + 's" where
  "forEach [] body s = Inr s"
| "forEach (x # xs) body s = bind (body x s) (forEach xs body)"

text \<open>\<open>static_cast<int>\<close> of a \<open>double\<close>: the fraction is dropped.\<close>

definition to_int :: "fp \<Rightarrow> error + int" where
  "to_int a =
     (case a of
        Fin x \<Rightarrow>
          (let t = (if 0 \<le> x then \<lfloor>x\<rfloor> else \<lceil>x\<rceil>)
           in if - (2 ^ 31) \<le> t \<and> t < 2 ^ 31 then Inr t else Inl FloatToInt)
      | _ \<Rightarrow> Inl FloatToInt)"

subsection \<open>The data\<close>

record domain_t =
  min_d :: fp
  max_d :: fp

text \<open>\<open>domain_t::empty\<close>: both bounds are the default ones.\<close>

definition domain_empty :: "domain_t \<Rightarrow> bool" where
  "domain_empty d \<longleftrightarrow> fp_eq (min_d d) (Fin (- FLT_MAX)) \<and> fp_eq (max_d d) (Fin FLT_MAX)"

text \<open>\<open>Points<Ndim>\<close> (Point.h is not among the sources): the fields that Clustering.h
  reads and writes, with the element types it uses them at.\<close>

record Points =
  coordinates :: "fp list list"
  weight :: "fp list"
  n :: int
  rho :: "fp list"
  delta :: "fp list"
  nearestHigher :: "int list"
  followers :: "int list list"
  clusterIndex :: "int list"
  isSeed :: "int list"

record ClusteringAlgo =
  dc :: fp
  rhoc :: fp
  outlierDeltaFactor :: fp
  pointsPerTile :: int
  domains :: "domain_t list"
  points :: Points

text \<open>
  \<open>tiles<Ndim>\<close> (Tiles.h is not among the sources) is a parameter: a type \<open>'t\<close> of
  grids with the operations that Clustering.h calls on one. \<open>bin t binId\<close> is
  \<open>tiles[binId]\<close>, the point indices stored in a bin.
\<close>

record 't tiles_ops =
  new_tiles :: "'t"
  set_nTiles :: "'t \<Rightarrow> int \<Rightarrow> 't"
  resizeTiles :: "'t \<Rightarrow> 't"
  set_tilesSize :: "'t \<Rightarrow> fp list \<Rightarrow> 't"
  set_minMax :: "'t \<Rightarrow> nat \<Rightarrow> fp \<times> fp \<Rightarrow> 't"
  fill :: "'t \<Rightarrow> fp list \<Rightarrow> int \<Rightarrow> 't"
  getBinsFromRange :: "'t \<Rightarrow> fp \<Rightarrow> fp \<Rightarrow> nat \<Rightarrow> int list"
  searchBox :: "'t \<Rightarrow> int list list \<Rightarrow> int list"
  bin :: "'t \<Rightarrow> int \<Rightarrow> int list"

text \<open>The two external callables: the kernel \<open>ker(dist, i, j)\<close> and \<open>deltaPhi(x_i, x_j,
  min, max)\<close> (deltaPhi.h is not among the sources), both on \<open>float\<close>s.\<close>

type_synonym kernel = "fp \<Rightarrow> int \<Rightarrow> int \<Rightarrow> fp"
type_synonym deltaPhi = "fp \<Rightarrow> fp \<Rightarrow> fp \<Rightarrow> fp \<Rightarrow> fp"

subsection \<open>\<open>setPoints\<close>, \<open>calculateNTiles\<close>, \<open>calculateTileSize\<close>\<close>

text \<open>\<open>std::vector::resize(k, v)\<close>: the first \<open>k\<close> elements stay, and \<open>v\<close> fills the
  places beyond the old length.\<close>

definition resize :: "'a list \<Rightarrow> nat \<Rightarrow> 'a \<Rightarrow> 'a list" where
  "resize xs k v = take k xs @ replicate (k - length xs) v"

definition setPoints ::
  "ClusteringAlgo \<Rightarrow> int \<Rightarrow> fp list list \<Rightarrow> fp list \<Rightarrow> error + (bool \<times> ClusteringAlgo)" where
  "setPoints alg n_in coords w =
     (let p = (points alg)\<lparr>coordinates := coords, weight := w, n := n_in\<rparr>
      in if n p = 0 then Inr (True, alg\<lparr>points := p\<rparr>)
         else if n p < 0 then Inl LengthError
         else Inr (False, alg\<lparr>points := p
           \<lparr>rho := resize (rho p) (nat (n p)) (Fin 0),
            delta := resize (delta p) (nat (n p)) (Fin FLT_MAX),
            nearestHigher := resize (nearestHigher p) (nat (n p)) (- 1),
            followers := resize (followers p) (nat (n p)) [],
            clusterIndex := resize (clusterIndex p) (nat (n p)) (- 1),
            isSeed := resize (isSeed p) (nat (n p)) 0\<rparr>\<rparr>))"

text \<open>\<open>Points::clear\<close> is not among the sources and \<open>setPoints\<close> does not call it (the
  call is commented out), so it is not modelled.\<close>

definition tooHigh :: string where
  "tooHigh = ''pointPerBin is set too high for you number of points. You must lower it in the clusterer constructor.'' @ [CHR 0x0A]"

text \<open>
  \<open>calculateNTiles\<close>: the quotient of two \<open>int\<close>s truncates towards zero. The
  \<open>throw 100\<close> is caught by the \<open>catch (...)\<close> around it, which prints; the function then
  returns \<open>ntiles\<close> as on the other path. The second component is what was printed.
\<close>

definition calculateNTiles :: "ClusteringAlgo \<Rightarrow> int \<Rightarrow> error + (int \<times> string list)" where
  "calculateNTiles alg pointPerBin =
     (if pointPerBin = 0 \<or> (n (points alg) = - (2 ^ 31) \<and> pointPerBin = - 1) then Inl DivisionError
      else (let ntiles = n (points alg) sdiv pointPerBin
            in case (if ntiles = 0 then Inl (100 :: int) else Inr ()) of
                 Inl thrown \<Rightarrow> Inr (ntiles, [tooHigh])
               | Inr _ \<Rightarrow> Inr (ntiles, [])))"

text \<open>
  \<open>static_cast<int>(std::pow(NTiles, 1.0 / Ndim))\<close>: the \<open>int\<close> \<open>NTiles\<close> becomes a
  \<open>double\<close> (exactly), the exponent is the quotient of two \<open>double\<close>s, and the power is cut
  to an \<open>int\<close>.
\<close>

definition root_to_int :: "int \<Rightarrow> nat \<Rightarrow> error + int" where
  "root_to_int NTiles Ndim =
     to_int (pow_double (real_of_int NTiles) (fp_div to_double (Fin 1) (Fin (real Ndim))))"

text \<open>
  \<open>calculateTileSize\<close>: each dimension reads the largest and the smallest coordinate by
  dereferencing \<open>max_element\<close> and \<open>min_element\<close> (the first largest and the first
  smallest element under \<open><\<close>), stores them in \<open>minMax\<close>, and divides their difference by
  \<open>NperDim\<close>, converted to \<open>float\<close>.
\<close>

definition max_element :: "fp list \<Rightarrow> fp" where
  "max_element row = foldl (\<lambda>largest x. if fp_less largest x then x else largest) (hd row) (tl row)"

definition min_element :: "fp list \<Rightarrow> fp" where
  "min_element row = foldl (\<lambda>smallest x. if fp_less x smallest then x else smallest) (hd row) (tl row)"

definition calculateTileSize ::
  "'t tiles_ops \<Rightarrow> nat \<Rightarrow> ClusteringAlgo \<Rightarrow> int \<Rightarrow> 't \<Rightarrow> error + (fp list \<times> 't)" where
  "calculateTileSize ops Ndim alg NTiles tiles =
     bind (root_to_int NTiles Ndim) (\<lambda>NperDim.
       forEach [0..<Ndim] (\<lambda>i (tileSizes, t).
         bind (read_at (coordinates (points alg)) (int i)) (\<lambda>row.
           if row = [] then Inl EmptyRange
           else (let dimMax = max_element row;
                     dimMin = min_element row;
                     t1 = set_minMax ops t i (dimMin, dimMax);
                     tileSize = fp_div to_float (fp_sub to_float dimMax dimMin)
                                  (to_float (real_of_int NperDim))
                 in Inr (tileSizes @ [tileSize], t1))))
       ([], tiles))"

subsection \<open>The grid fill, the search box and the distance\<close>

definition prepareDataStructures ::
  "'t tiles_ops \<Rightarrow> nat \<Rightarrow> ClusteringAlgo \<Rightarrow> 't \<Rightarrow> error + 't" where
  "prepareDataStructures ops Ndim alg tiles =
     forEach [0..<nat (n (points alg))] (\<lambda>i t.
       bind (forEach [0..<Ndim] (\<lambda>j coords.
               bind (read_at (coordinates (points alg)) (int j)) (\<lambda>row.
               bind (read_at row (int i)) (\<lambda>x.
               Inr (coords @ [x]))))
             [])
         (\<lambda>coords. Inr (fill ops t coords (int i))))
       tiles"

text \<open>
  The bins of one dimension \<open>j\<close> for a point at coordinate \<open>x\<close> and a radius \<open>r\<close>: the
  statement that fills \<open>xjBins[j]\<close> and the \<open>if\<close> / \<open>else if\<close> that follows it. The
  same text stands in \<open>calculateLocalDensity\<close> (with \<open>dc_\<close>) and in
  \<open>calculateDistanceToHigher\<close> (with \<open>dm\<close>). Every sum and difference is a \<open>float\<close>
  operation, and the tests compare the rounded values.
\<close>

definition searchBins ::
  "'t tiles_ops \<Rightarrow> 't \<Rightarrow> domain_t \<Rightarrow> fp \<Rightarrow> fp \<Rightarrow> nat \<Rightarrow> int list" where
  "searchBins ops tiles d x r j =
     (let bins = getBinsFromRange ops tiles (fp_sub to_float x r) (fp_add to_float x r) j
      in if fp_less (max_d d) (fp_add to_float x r)
         then bins @ getBinsFromRange ops tiles (min_d d) (fp_add to_float (min_d d) r) j
         else if fp_less (fp_sub to_float x r) (min_d d)
         then bins @ getBinsFromRange ops tiles (fp_sub to_float (max_d d) r) (max_d d) j
         else bins)"

text \<open>The loop over the dimensions that builds \<open>xjBins\<close> for point \<open>i\<close>, and the
  \<open>search_box\<close> that \<open>tiles.searchBox\<close> makes of it.\<close>

definition get_xjBins ::
  "'t tiles_ops \<Rightarrow> nat \<Rightarrow> ClusteringAlgo \<Rightarrow> 't \<Rightarrow> fp \<Rightarrow> nat \<Rightarrow> error + int list list" where
  "get_xjBins ops Ndim alg tiles r i =
     forEach [0..<Ndim] (\<lambda>j xjBins.
       bind (read_at (coordinates (points alg)) (int j)) (\<lambda>row.
       bind (read_at row (int i)) (\<lambda>x.
       bind (read_at (domains alg) (int j)) (\<lambda>d.
       Inr (xjBins @ [searchBins ops tiles d x r j])))))
     []"

definition get_search_box ::
  "'t tiles_ops \<Rightarrow> nat \<Rightarrow> ClusteringAlgo \<Rightarrow> 't \<Rightarrow> fp \<Rightarrow> nat \<Rightarrow> error + int list" where
  "get_search_box ops Ndim alg tiles r i =
     bind (get_xjBins ops Ndim alg tiles r i) (\<lambda>xjBins. Inr (searchBox ops tiles xjBins))"

text \<open>
  \<open>distance\<close>: \<open>std::pow(delta_xk, 2)\<close> is computed on \<open>double\<close>s, where the square of
  a \<open>float\<close> is exact; \<open>qSum += ...\<close> adds in \<open>double\<close> and stores the sum as a \<open>float\<close>;
  the square root is the one of \<open>float\<close>.
\<close>

definition distance ::
  "deltaPhi \<Rightarrow> nat \<Rightarrow> ClusteringAlgo \<Rightarrow> int \<Rightarrow> int \<Rightarrow> error + fp" where
  "distance dphi Ndim alg i j =
     bind (forEach [0..<Ndim] (\<lambda>k qSum.
             bind (read_at (coordinates (points alg)) (int k)) (\<lambda>row.
             bind (read_at row i) (\<lambda>xi.
             bind (read_at row j) (\<lambda>xj.
             bind (read_at (domains alg) (int k)) (\<lambda>d.
               (let delta_xk = dphi xi xj (min_d d) (max_d d)
                in Inr (fp_conv to_float
                     (fp_add to_double qSum (fp_mul to_double delta_xk delta_xk)))))))))
           (Fin 0))
       (\<lambda>qSum. Inr (fp_sqrt to_float qSum))"

subsection \<open>\<open>calculateLocalDensity\<close>\<close>

definition densityStep ::
  "deltaPhi \<Rightarrow> nat \<Rightarrow> kernel \<Rightarrow> nat \<Rightarrow> int \<Rightarrow> ClusteringAlgo \<Rightarrow> error + ClusteringAlgo" where
  "densityStep dphi Ndim ker i j alg =
     bind (distance dphi Ndim alg (int i) j) (\<lambda>dist_ij.
       if fp_le dist_ij (dc alg)
       then bind (read_at (weight (points alg)) j) (\<lambda>w.
            bind (read_at (rho (points alg)) (int i)) (\<lambda>rho_i.
            bind (write_at (rho (points alg)) (int i)
                    (fp_add to_float rho_i (fp_mul to_float (ker dist_ij (int i) j) w))) (\<lambda>rho1.
            Inr (alg\<lparr>points := (points alg)\<lparr>rho := rho1\<rparr>\<rparr>))))
       else Inr alg)"

definition calculateLocalDensity ::
  "'t tiles_ops \<Rightarrow> deltaPhi \<Rightarrow> nat \<Rightarrow> kernel \<Rightarrow> 't \<Rightarrow> ClusteringAlgo \<Rightarrow> error + ClusteringAlgo" where
  "calculateLocalDensity ops dphi Ndim ker tiles alg0 =
     forEach [0..<nat (n (points alg0))] (\<lambda>i alg.
       bind (get_search_box ops Ndim alg tiles (dc alg) i) (\<lambda>search_box.
         forEach search_box (\<lambda>binId.
           forEach (bin ops tiles binId) (densityStep dphi Ndim ker i))
         alg))
     alg0"

subsection \<open>\<open>calculateDistanceToHigher\<close>\<close>

text \<open>The body of the innermost loop, on the pair \<open>(delta_i, nearestHigher_i)\<close>.\<close>

definition higherStep ::
  "deltaPhi \<Rightarrow> nat \<Rightarrow> ClusteringAlgo \<Rightarrow> fp \<Rightarrow> nat \<Rightarrow> fp \<Rightarrow> int \<Rightarrow> fp \<times> int \<Rightarrow> error + fp \<times> int" where
  "higherStep dphi Ndim alg dm i rho_i j = (\<lambda>(delta_i, nearestHigher_i).
     bind (read_at (rho (points alg)) j) (\<lambda>rho_j.
       (let foundHigher = fp_less rho_i rho_j;
            foundHigher = (foundHigher \<or> (fp_eq rho_j rho_i \<and> j > int i))
        in bind (distance dphi Ndim alg (int i) j) (\<lambda>dist_ij.
             if foundHigher \<and> fp_le dist_ij dm
             then (if fp_less dist_ij delta_i then Inr (dist_ij, j) else Inr (delta_i, nearestHigher_i))
             else Inr (delta_i, nearestHigher_i)))))"

text \<open>One iteration of the loop over the points: the scan that ends with the final
  \<open>(delta_i, nearestHigher_i)\<close>, and the two stores after it.\<close>

definition nearestHigherOf ::
  "'t tiles_ops \<Rightarrow> deltaPhi \<Rightarrow> nat \<Rightarrow> 't \<Rightarrow> fp \<Rightarrow> nat \<Rightarrow> ClusteringAlgo \<Rightarrow> error + fp \<times> int" where
  "nearestHigherOf ops dphi Ndim tiles dm i alg =
     bind (read_at (rho (points alg)) (int i)) (\<lambda>rho_i.
     bind (get_search_box ops Ndim alg tiles dm i) (\<lambda>search_box.
     forEach search_box (\<lambda>binId.
       forEach (bin ops tiles binId) (higherStep dphi Ndim alg dm i rho_i))
     (Fin FLT_MAX, - 1)))"

definition higherPoint ::
  "'t tiles_ops \<Rightarrow> deltaPhi \<Rightarrow> nat \<Rightarrow> 't \<Rightarrow> fp \<Rightarrow> nat \<Rightarrow> ClusteringAlgo \<Rightarrow> error + ClusteringAlgo" where
  "higherPoint ops dphi Ndim tiles dm i alg =
     bind (nearestHigherOf ops dphi Ndim tiles dm i alg) (\<lambda>(delta_i, nearestHigher_i).
     bind (write_at (delta (points alg)) (int i) delta_i) (\<lambda>delta1.
     bind (write_at (nearestHigher (points alg)) (int i) nearestHigher_i) (\<lambda>nearestHigher1.
     Inr (alg\<lparr>points := (points alg)\<lparr>delta := delta1, nearestHigher := nearestHigher1\<rparr>\<rparr>))))"

text \<open>\<open>dm\<close> is the product of two \<open>float\<close>s, a \<open>float\<close>.\<close>

definition calculateDistanceToHigher ::
  "'t tiles_ops \<Rightarrow> deltaPhi \<Rightarrow> nat \<Rightarrow> 't \<Rightarrow> ClusteringAlgo \<Rightarrow> error + ClusteringAlgo" where
  "calculateDistanceToHigher ops dphi Ndim tiles alg0 =
     (let dm = fp_mul to_float (outlierDeltaFactor alg0) (dc alg0)
      in forEach [0..<nat (n (points alg0))] (higherPoint ops dphi Ndim tiles dm) alg0)"

subsection \<open>\<open>findAndAssignClusters\<close>\<close>

text \<open>
  The first loop, on the engine together with \<open>nClusters\<close> and \<open>localStack\<close>. A
  point that is neither a seed nor an outlier is appended to
  \<open>followers[nearestHigher[i]]\<close>, whatever index \<open>nearestHigher[i]\<close> holds.
\<close>

definition classifyPoint ::
  "nat \<Rightarrow> ClusteringAlgo \<times> int \<times> int list \<Rightarrow> error + ClusteringAlgo \<times> int \<times> int list" where
  "classifyPoint i = (\<lambda>(alg, nClusters, localStack).
     bind (write_at (clusterIndex (points alg)) (int i) (- 1)) (\<lambda>ci.
     bind (read_at (delta (points alg)) (int i)) (\<lambda>deltai.
     bind (read_at (rho (points alg)) (int i)) (\<lambda>rhoi.
       (let seed = (fp_less (dc alg) deltai \<and> fp_le (rhoc alg) rhoi);
            outlier = (fp_less (fp_mul to_float (outlierDeltaFactor alg) (dc alg)) deltai
                       \<and> fp_less rhoi (rhoc alg))
        in if seed
           then bind (write_at (isSeed (points alg)) (int i) 1) (\<lambda>sd.
                bind (write_at ci (int i) nClusters) (\<lambda>ci1.
                Inr (alg\<lparr>points := (points alg)\<lparr>clusterIndex := ci1, isSeed := sd\<rparr>\<rparr>,
                     nClusters + 1, localStack @ [int i])))
           else if \<not> outlier
           then bind (read_at (nearestHigher (points alg)) (int i)) (\<lambda>nh.
                bind (read_at (followers (points alg)) nh) (\<lambda>fs.
                bind (write_at (followers (points alg)) nh (fs @ [int i])) (\<lambda>fl.
                Inr (alg\<lparr>points := (points alg)\<lparr>clusterIndex := ci, followers := fl\<rparr>\<rparr>,
                     nClusters, localStack))))
           else Inr (alg\<lparr>points := (points alg)\<lparr>clusterIndex := ci\<rparr>\<rparr>,
                     nClusters, localStack))))))"

definition classifyPoints ::
  "ClusteringAlgo \<Rightarrow> error + ClusteringAlgo \<times> int \<times> int list" where
  "classifyPoints alg = forEach [0..<nat (n (points alg))] classifyPoint (alg, 0, [])"

text \<open>The inner loop of the expansion: every follower \<open>j\<close> of \<open>i\<close> takes the cluster
  index of \<open>i\<close> and is pushed.\<close>

definition passId :: "int \<Rightarrow> int \<Rightarrow> int list \<times> int list \<Rightarrow> error + int list \<times> int list" where
  "passId i j = (\<lambda>(ci, localStack).
     bind (read_at ci i) (\<lambda>c.
     bind (write_at ci j c) (\<lambda>ci1.
     Inr (ci1, localStack @ [j]))))"

text \<open>The \<open>while (!localStack.empty())\<close> loop. It may run forever, and then the value
  is \<open>None\<close>.\<close>

partial_function (option) expandClusters ::
  "int list list \<Rightarrow> int list \<Rightarrow> int list \<Rightarrow> (error + int list) option" where
  "expandClusters fl ci localStack =
     (if localStack = [] then Some (Inr ci)
      else (let i = last localStack
            in case read_at fl i of
                 Inl e \<Rightarrow> Some (Inl e)
               | Inr fs \<Rightarrow>
                   (case forEach fs (passId i) (ci, butlast localStack) of
                      Inl e \<Rightarrow> Some (Inl e)
                    | Inr (ci1, localStack1) \<Rightarrow> expandClusters fl ci1 localStack1)))"

definition findAndAssignClusters :: "ClusteringAlgo \<Rightarrow> (error + ClusteringAlgo) option" where
  "findAndAssignClusters alg =
     (case classifyPoints alg of
        Inl e \<Rightarrow> Some (Inl e)
      | Inr (alg1, nClusters, localStack) \<Rightarrow>
          (case expandClusters (followers (points alg1)) (clusterIndex (points alg1)) localStack of
             None \<Rightarrow> None
           | Some (Inl e) \<Rightarrow> Some (Inl e)
           | Some (Inr ci) \<Rightarrow> Some (Inr (alg1\<lparr>points := (points alg1)\<lparr>clusterIndex := ci\<rparr>\<rparr>))))"

subsection \<open>\<open>makeClusters\<close>\<close>

text \<open>The result is the returned pair \<open>{clusterIndex, isSeed}\<close>, the engine as the call
  leaves it, and what was printed.\<close>

definition makeClusters ::
  "'t tiles_ops \<Rightarrow> deltaPhi \<Rightarrow> nat \<Rightarrow> kernel \<Rightarrow> ClusteringAlgo
     \<Rightarrow> (error + (int list \<times> int list) \<times> ClusteringAlgo \<times> string list) option" where
  "makeClusters ops dphi Ndim ker alg =
     (case calculateNTiles alg (pointsPerTile alg) of
        Inl e \<Rightarrow> Some (Inl e)
      | Inr (nT, printed) \<Rightarrow>
          (let Tiles = resizeTiles ops (set_nTiles ops (new_tiles ops) nT)
           in case bind (calculateTileSize ops Ndim alg nT Tiles) (\<lambda>(tileSizes, Tiles1).
                   bind (prepareDataStructures ops Ndim alg (set_tilesSize ops Tiles1 tileSizes)) (\<lambda>Tiles2.
                   bind (calculateLocalDensity ops dphi Ndim ker Tiles2 alg) (\<lambda>alg1.
                   calculateDistanceToHigher ops dphi Ndim Tiles2 alg1))) of
                Inl e \<Rightarrow> Some (Inl e)
              | Inr alg2 \<Rightarrow>
                  (case findAndAssignClusters alg2 of
                     None \<Rightarrow> None
                   | Some (Inl e) \<Rightarrow> Some (Inl e)
                   | Some (Inr alg3) \<Rightarrow>
                       Some (Inr ((clusterIndex (points alg3), isSeed (points alg3)), alg3, printed)))))"

subsection \<open>Notions used to state the properties\<close>

text \<open>The points scanned for a search box, in the order of the scan.\<close>

definition candidates :: "'t tiles_ops \<Rightarrow> 't \<Rightarrow> int list \<Rightarrow> int list" where
  "candidates ops tiles search_box = concat (map (bin ops tiles) search_box)"

text \<open>The radius of the nearest-higher search: the \<open>float\<close> \<open>dm\<close>.\<close>

definition dm_of :: "ClusteringAlgo \<Rightarrow> fp" where
  "dm_of alg = fp_mul to_float (outlierDeltaFactor alg) (dc alg)"

text \<open>\<open>higher rh i j\<close>: point \<open>j\<close> is denser than point \<open>i\<close>, or as dense with a larger
  index.\<close>

definition higher :: "fp list \<Rightarrow> int \<Rightarrow> int \<Rightarrow> bool" where
  "higher rh i j \<longleftrightarrow>
     fp_less (rh ! nat i) (rh ! nat j) \<or> (fp_eq (rh ! nat j) (rh ! nat i) \<and> j > i)"

text \<open>\<open>j\<close> is higher than \<open>i\<close> and within \<open>dm\<close> of it, by the distance that the code
  computes.\<close>

definition inNeighbourhood ::
  "deltaPhi \<Rightarrow> nat \<Rightarrow> ClusteringAlgo \<Rightarrow> fp \<Rightarrow> nat \<Rightarrow> int \<Rightarrow> bool" where
  "inNeighbourhood dphi Ndim alg dm i j =
     (case distance dphi Ndim alg (int i) j of
        Inl e \<Rightarrow> False
      | Inr d \<Rightarrow> higher (rho (points alg)) (int i) j \<and> fp_le d dm)"

text \<open>\<open>j\<close> is moreover nearer than the largest finite \<open>float\<close>.\<close>

definition selectable ::
  "deltaPhi \<Rightarrow> nat \<Rightarrow> ClusteringAlgo \<Rightarrow> fp \<Rightarrow> nat \<Rightarrow> int \<Rightarrow> bool" where
  "selectable dphi Ndim alg dm i j =
     (case distance dphi Ndim alg (int i) j of
        Inl e \<Rightarrow> False
      | Inr d \<Rightarrow> higher (rho (points alg)) (int i) j \<and> fp_le d dm \<and> fp_less d (Fin FLT_MAX))"


text \<open>The two tests of \<open>findAndAssignClusters\<close> on point \<open>i\<close>, and the case that is
  left: the point is registered as a follower.\<close>

definition seedCond :: "ClusteringAlgo \<Rightarrow> nat \<Rightarrow> bool" where
  "seedCond alg i \<longleftrightarrow>
     fp_less (dc alg) (delta (points alg) ! i) \<and> fp_le (rhoc alg) (rho (points alg) ! i)"

definition outlierCond :: "ClusteringAlgo \<Rightarrow> nat \<Rightarrow> bool" where
  "outlierCond alg i \<longleftrightarrow>
     fp_less (dm_of alg) (delta (points alg) ! i) \<and> fp_less (rho (points alg) ! i) (rhoc alg)"

definition followerCond :: "ClusteringAlgo \<Rightarrow> nat \<Rightarrow> bool" where
  "followerCond alg i \<longleftrightarrow> \<not> seedCond alg i \<and> \<not> outlierCond alg i"

text \<open>
  The arrays after the first \<open>k\<close> iterations of the first loop of
  \<open>findAndAssignClusters\<close>, written out: the seeds among the first \<open>k\<close> points are
  numbered in the order of their indices, the other points among them hold \<open>-1\<close>, and
  each follower list has gained the followers among them that point to it.
\<close>

definition clusterIndex_after :: "ClusteringAlgo \<Rightarrow> nat \<Rightarrow> int list" where
  "clusterIndex_after alg k =
     map (\<lambda>i. if i < k
               then (if seedCond alg i then int (length (filter (seedCond alg) [0..<i])) else - 1)
               else clusterIndex (points alg) ! i)
       [0..<length (clusterIndex (points alg))]"

definition isSeed_after :: "ClusteringAlgo \<Rightarrow> nat \<Rightarrow> int list" where
  "isSeed_after alg k =
     map (\<lambda>i. if i < k \<and> seedCond alg i then 1 else isSeed (points alg) ! i)
       [0..<length (isSeed (points alg))]"

definition followers_after :: "ClusteringAlgo \<Rightarrow> nat \<Rightarrow> int list list" where
  "followers_after alg k =
     map (\<lambda>t. followers (points alg) ! t @
               map int (filter (\<lambda>i. followerCond alg i \<and> nearestHigher (points alg) ! i = int t) [0..<k]))
       [0..<length (followers (points alg))]"

definition classified :: "ClusteringAlgo \<Rightarrow> nat \<Rightarrow> ClusteringAlgo \<times> int \<times> int list" where
  "classified alg k =
     (alg\<lparr>points := (points alg)\<lparr>followers := followers_after alg k,
        clusterIndex := clusterIndex_after alg k, isSeed := isSeed_after alg k\<rparr>\<rparr>,
      int (length (filter (seedCond alg) [0..<k])),
      map int (filter (seedCond alg) [0..<k]))"

text \<open>
  An engine on which the nearest-higher search reads no array out of range: the first
  \<open>Ndim\<close> coordinate rows have length \<open>n\<close>, there are \<open>Ndim\<close> domains, and \<open>rho\<close>,
  \<open>delta\<close> and \<open>nearestHigher\<close> have length \<open>n\<close>; and a grid whose bins hold point
  indices only.
\<close>

definition well_shaped :: "nat \<Rightarrow> ClusteringAlgo \<Rightarrow> bool" where
  "well_shaped Ndim alg \<longleftrightarrow>
     Ndim \<le> length (coordinates (points alg)) \<and>
     Ndim \<le> length (domains alg) \<and>
     list_all (\<lambda>row. length row = nat (n (points alg))) (take Ndim (coordinates (points alg))) \<and>
     length (rho (points alg)) = nat (n (points alg)) \<and>
     length (delta (points alg)) = nat (n (points alg)) \<and>
     length (nearestHigher (points alg)) = nat (n (points alg))"

definition bins_hold_points :: "'t tiles_ops \<Rightarrow> 't \<Rightarrow> ClusteringAlgo \<Rightarrow> bool" where
  "bins_hold_points ops tiles alg \<longleftrightarrow>
     (\<forall>binId. list_all (\<lambda>j. 0 \<le> j \<and> j < n (points alg)) (bin ops tiles binId))"

text \<open>The order that nearest-higher links follow, as a relation on indices.\<close>

definition lower_rel :: "fp list \<Rightarrow> (int \<times> int) set" where
  "lower_rel rh = {(j, t). higher rh j t}"

text \<open>
  The scan of \<open>calculateDistanceToHigher\<close> without its error branches: \<open>q j\<close> says
  that candidate \<open>j\<close> passes the test of the inner \<open>if\<close>, and \<open>dv j\<close> is its distance.
  \<open>distv\<close> reads the value of a distance that is defined.
\<close>

definition pstep :: "(int \<Rightarrow> bool) \<Rightarrow> (int \<Rightarrow> fp) \<Rightarrow> fp \<times> int \<Rightarrow> int \<Rightarrow> fp \<times> int" where
  "pstep q dv = (\<lambda>(d0, h0) j. if q j \<and> fp_less (dv j) d0 then (dv j, j) else (d0, h0))"

definition distv :: "deltaPhi \<Rightarrow> nat \<Rightarrow> ClusteringAlgo \<Rightarrow> nat \<Rightarrow> int \<Rightarrow> fp" where
  "distv dphi Ndim alg i j = (case distance dphi Ndim alg (int i) j of Inl e \<Rightarrow> NaN | Inr d \<Rightarrow> d)"

subsection \<open>Concrete inputs\<close>

text \<open>The constructor, over a \<open>Points\<close> that holds nothing yet.\<close>

definition no_points :: Points where
  "no_points = \<lparr>coordinates = [], weight = [], n = 0, rho = [], delta = [],
     nearestHigher = [], followers = [], clusterIndex = [], isSeed = []\<rparr>"

definition ClusteringAlgo_new ::
  "fp \<Rightarrow> fp \<Rightarrow> fp \<Rightarrow> int \<Rightarrow> domain_t list \<Rightarrow> ClusteringAlgo" where
  "ClusteringAlgo_new dc_in rhoc_in outlierDeltaFactor_in pPBin domains_in =
     \<lparr>dc = dc_in, rhoc = rhoc_in, outlierDeltaFactor = outlierDeltaFactor_in,
      pointsPerTile = pPBin, domains = domains_in, points = no_points\<rparr>"

text \<open>A \<open>domain_t\<close> with its default member values.\<close>

definition domain_default :: domain_t where
  "domain_default = \<lparr>min_d = Fin (- FLT_MAX), max_d = Fin FLT_MAX\<rparr>"

text \<open>
  Modelled from the spec: Tiles.h, deltaPhi.h and Kernels.h are not among the sources.
  \<open>oneBin\<close> is the grid of section 4.2 in the case of a single bin: \<open>fill\<close> appends
  every index to bin 0, every range of every dimension selects bin 0, and the search box is
  the flattened product of the per-dimension lists. \<open>plainDiff\<close> is the coordinate
  difference on an unbounded domain (section 4.5: plain subtraction, here of \<open>float\<close>s),
  and \<open>flatKernel\<close> the kernel that returns 1 for every pair.
\<close>

definition oneBin :: "int list tiles_ops" where
  "oneBin = \<lparr>new_tiles = [],
     set_nTiles = (\<lambda>t k. t),
     resizeTiles = (\<lambda>t. []),
     set_tilesSize = (\<lambda>t sizes. t),
     set_minMax = (\<lambda>t j mm. t),
     fill = (\<lambda>t coords i. t @ [i]),
     getBinsFromRange = (\<lambda>t lo hi j. [0]),
     searchBox = (\<lambda>t xjBins. replicate (prod_list (map length xjBins)) 0),
     bin = (\<lambda>t binId. if binId = 0 then t else [])\<rparr>"

definition plainDiff :: deltaPhi where
  "plainDiff xi xj lo hi = fp_sub to_float xi xj"

definition flatKernel :: kernel where
  "flatKernel d i j = Fin 1"

text \<open>
  Three points on a line, at 0, 1/2 and 10, with \<open>dc = 1\<close>, \<open>rhoc = 1/2\<close> and
  \<open>outlierDeltaFactor = 2\<close>: the engine after \<open>setPoints\<close> and the density estimate
  (the two near points see each other, the far one has weight 1/4), and the filled grid.
\<close>

definition three_points :: ClusteringAlgo where
  "three_points = \<lparr>dc = Fin 1, rhoc = Fin (1 / 2), outlierDeltaFactor = Fin 2, pointsPerTile = 3,
     domains = [domain_default],
     points = \<lparr>coordinates = [[Fin 0, Fin (1 / 2), Fin 10]],
       weight = [Fin 1, Fin 1, Fin (1 / 4)], n = 3,
       rho = [Fin 2, Fin 2, Fin (1 / 4)],
       delta = [Fin FLT_MAX, Fin FLT_MAX, Fin FLT_MAX], nearestHigher = [- 1, - 1, - 1],
       followers = [[], [], []], clusterIndex = [- 1, - 1, - 1], isSeed = [0, 0, 0]\<rparr>\<rparr>"

definition three_tiles :: "int list" where
  "three_tiles = [0, 1, 2]"

text \<open>The same engine after the nearest-higher search.\<close>

definition three_searched :: ClusteringAlgo where
  "three_searched = three_points\<lparr>points := (points three_points)
     \<lparr>delta := [Fin (1 / 2), Fin FLT_MAX, Fin FLT_MAX], nearestHigher := [1, - 1, - 1]\<rparr>\<rparr>"

text \<open>
  Two points of densities 1 and 2, at 0 and at \<open>FLT_MAX\<close>, with \<open>dc = FLT_MAX\<close> and
  \<open>outlierDeltaFactor = 2\<close>: the product \<open>dm\<close> and the distance between the two points
  both overflow to \<open>+infinity\<close>.
\<close>

definition far_points :: ClusteringAlgo where
  "far_points = \<lparr>dc = Fin FLT_MAX, rhoc = Fin (1 / 2), outlierDeltaFactor = Fin 2,
     pointsPerTile = 2, domains = [domain_default],
     points = \<lparr>coordinates = [[Fin 0, Fin FLT_MAX]], weight = [Fin 1, Fin 2], n = 2,
       rho = [Fin 1, Fin 2],
       delta = [Fin FLT_MAX, Fin FLT_MAX], nearestHigher = [- 1, - 1],
       followers = [[], []], clusterIndex = [- 1, - 1], isSeed = [0, 0]\<rparr>\<rparr>"

text \<open>
  Two points of densities 1 and 2, at 0 and at \<open>0.3f = 5033165 / 2^24\<close>, with
  \<open>dc = 0.1f = 13421773 / 2^27\<close> and \<open>outlierDeltaFactor = 3\<close>: the exact product of
  the two is below \<open>0.3f\<close>, and their \<open>float\<close> product is \<open>0.3f\<close>.
\<close>

definition tenth_radius :: ClusteringAlgo where
  "tenth_radius = \<lparr>dc = Fin (13421773 / 2 ^ 27), rhoc = Fin (1 / 2), outlierDeltaFactor = Fin 3,
     pointsPerTile = 2, domains = [domain_default],
     points = \<lparr>coordinates = [[Fin 0, Fin (5033165 / 2 ^ 24)]], weight = [Fin 1, Fin 2], n = 2,
       rho = [Fin 1, Fin 2],
       delta = [Fin FLT_MAX, Fin FLT_MAX], nearestHigher = [- 1, - 1],
       followers = [[], []], clusterIndex = [- 1, - 1], isSeed = [0, 0]\<rparr>\<rparr>"



text \<open>
  A single point of weight 1 with \<open>dc = 1\<close>, \<open>rhoc = 3/2\<close>, \<open>outlierDeltaFactor = 2\<close>
  and one point per tile: the engine after the constructor and \<open>setPoints\<close>, after a
  first \<open>makeClusters\<close>, and after a second one.
\<close>

definition one_point :: ClusteringAlgo where
  "one_point = \<lparr>dc = Fin 1, rhoc = Fin (3 / 2), outlierDeltaFactor = Fin 2, pointsPerTile = 1,
     domains = [domain_default],
     points = \<lparr>coordinates = [[Fin 0]], weight = [Fin 1], n = 1, rho = [Fin 0],
       delta = [Fin FLT_MAX], nearestHigher = [- 1], followers = [[]],
       clusterIndex = [- 1], isSeed = [0]\<rparr>\<rparr>"

definition one_point_once :: ClusteringAlgo where
  "one_point_once = one_point\<lparr>points := (points one_point)\<lparr>rho := [Fin 1]\<rparr>\<rparr>"

definition one_point_twice :: ClusteringAlgo where
  "one_point_twice = one_point\<lparr>points := (points one_point)
     \<lparr>rho := [Fin 2], clusterIndex := [0], isSeed := [1]\<rparr>\<rparr>"

text \<open>The same point in an engine built with two points per tile.\<close>

definition too_few :: ClusteringAlgo where
  "too_few = one_point\<lparr>rhoc := Fin (1 / 2), pointsPerTile := 2\<rparr>"

text \<open>An engine after \<open>setPoints(0, {{}}, {})\<close>: one dimension, no point.\<close>

definition empty_set :: ClusteringAlgo where
  "empty_set = \<lparr>dc = Fin 1, rhoc = Fin (1 / 2), outlierDeltaFactor = Fin 2, pointsPerTile = 1,
     domains = [domain_default], points = no_points\<lparr>coordinates := [[]]\<rparr>\<rparr>"

text \<open>
  An engine used for two point sets in turn, with \<open>dc = 1\<close>, \<open>rhoc = 1/2\<close>,
  \<open>outlierDeltaFactor = 2\<close> and two points per tile. \<open>far_pair\<close> is the engine after the
  constructor and \<open>setPoints(2, {{0, 10}}, {1, 1})\<close>, \<open>far_pair_done\<close> after
  \<open>makeClusters\<close>; \<open>near_pair\<close> is the same engine after
  \<open>setPoints(2, {{0, 0.5}}, {1, 1})\<close>, \<open>near_pair_searched\<close> after the density
  estimate and the nearest-higher search of the second \<open>makeClusters\<close>, and
  \<open>near_pair_done\<close> after the whole of it.
\<close>

definition far_pair :: ClusteringAlgo where
  "far_pair = \<lparr>dc = Fin 1, rhoc = Fin (1 / 2), outlierDeltaFactor = Fin 2, pointsPerTile = 2,
     domains = [domain_default],
     points = \<lparr>coordinates = [[Fin 0, Fin 10]], weight = [Fin 1, Fin 1], n = 2,
       rho = [Fin 0, Fin 0],
       delta = [Fin FLT_MAX, Fin FLT_MAX], nearestHigher = [- 1, - 1], followers = [[], []],
       clusterIndex = [- 1, - 1], isSeed = [0, 0]\<rparr>\<rparr>"

definition far_pair_done :: ClusteringAlgo where
  "far_pair_done = far_pair\<lparr>points := (points far_pair)
     \<lparr>rho := [Fin 1, Fin 1], clusterIndex := [0, 1], isSeed := [1, 1]\<rparr>\<rparr>"

definition near_pair :: ClusteringAlgo where
  "near_pair = far_pair_done\<lparr>points := (points far_pair_done)
     \<lparr>coordinates := [[Fin 0, Fin (1 / 2)]]\<rparr>\<rparr>"

definition near_pair_searched :: ClusteringAlgo where
  "near_pair_searched = near_pair\<lparr>points := (points near_pair)
     \<lparr>rho := [Fin 3, Fin 3], delta := [Fin (1 / 2), Fin FLT_MAX], nearestHigher := [1, - 1]\<rparr>\<rparr>"

definition near_pair_done :: ClusteringAlgo where
  "near_pair_done = near_pair_searched\<lparr>points := (points near_pair_searched)
     \<lparr>followers := [[], [0]], clusterIndex := [0, 0]\<rparr>\<rparr>"

section \<open>Facts about the append buffer\<close>

lemma unat_succ_below:
  fixes a b :: "32 word"
  assumes "a < b"
  shows "unat (a + 1) = unat a + 1"
  using assms by unat_arith

lemma sint_of_small:
  fixes a :: "32 word"
  assumes "unat a < 2 ^ 31"
  shows "sint a = int (unat a)"
proof -
  have "int (unat a) < int (2 ^ 31)"
    using assms by (rule iffD2 [OF of_nat_less_iff])
  then have "uint a < 2 ^ 31"
    by simp
  moreover have "- (2 ^ 31) \<le> uint a"
    by (rule order_trans [of _ 0]) simp_all
  ultimately have "signed_take_bit 31 (uint a) = uint a"
    by (rule signed_take_bit_int_eq_self [rotated])
  then show ?thesis
    by (simp add: sint_uint)
qed

lemma push_back_unsafe_full:
  "m_size v = m_capacity v \<Longrightarrow> push_back_unsafe v e = (v, - 1)"
  by (simp add: push_back_unsafe_def Let_def)

lemma push_back_unsafe_room:
  "m_size v < m_capacity v \<Longrightarrow>
   push_back_unsafe v e =
     (v\<lparr>m_data := (m_data v)(m_size v \<mapsto> e), m_size := m_size v + 1\<rparr>, sint (m_size v))"
  by (simp add: push_back_unsafe_def Let_def)

lemma push_back_same: "push_back v e = push_back_unsafe v e"
  by (simp add: push_back_def push_back_unsafe_def)

lemma push_all_size:
  "unat (m_size v) + length es \<le> unat (m_capacity v) \<Longrightarrow>
   m_size (push_all v es) = m_size v + of_nat (length es) \<and>
   m_capacity (push_all v es) = m_capacity v"
proof (induction es arbitrary: v)
  case Nil
  then show ?case by (simp add: push_all_def)
next
  case (Cons e es)
  let ?w = "fst (push_back_unsafe v e)"
  have lt: "m_size v < m_capacity v"
    using Cons.prems by (simp add: word_less_nat_alt)
  then have w: "m_size ?w = m_size v + 1" "m_capacity ?w = m_capacity v"
    by (simp_all add: push_back_unsafe_room)
  have "unat (m_size ?w) = unat (m_size v) + 1"
    using lt w by (simp add: unat_succ_below)
  then have "unat (m_size ?w) + length es \<le> unat (m_capacity ?w)"
    using Cons.prems w by simp
  from Cons.IH [OF this] show ?case
    using w by (simp add: push_all_def)
qed

text \<open>
  C7 (as amended). At \<open>size = capacity\<close> both appends return \<open>-1\<close> and leave the whole
  buffer (storage, size, capacity) as it was. At \<open>size < capacity\<close> both write the element
  into the slot numbered by the previous size and add one to the size, without
  wrap-around; the value returned is the previous size converted to \<open>int\<close>, which is the
  slot index exactly when the previous size is below \<open>2^31\<close>.
\<close>

theorem Vec_push_back_result:
  "(m_size v = m_capacity v \<longrightarrow>
      push_back_unsafe v e = (v, - 1) \<and> push_back v e = (v, - 1)) \<and>
   (m_size v < m_capacity v \<longrightarrow>
      push_back_unsafe v e =
        (v\<lparr>m_data := (m_data v)(m_size v \<mapsto> e), m_size := m_size v + 1\<rparr>, sint (m_size v)) \<and>
      push_back v e =
        (v\<lparr>m_data := (m_data v)(m_size v \<mapsto> e), m_size := m_size v + 1\<rparr>, sint (m_size v)) \<and>
      unat (m_size v + 1) = unat (m_size v) + 1 \<and>
      (unat (m_size v) < 2 ^ 31 \<longrightarrow> sint (m_size v) = int (unat (m_size v))))"
proof (intro conjI impI)
  assume full: "m_size v = m_capacity v"
  then show "push_back_unsafe v e = (v, - 1)"
    by (rule push_back_unsafe_full)
  with push_back_same [of v e] show "push_back v e = (v, - 1)"
    by simp
next
  assume room: "m_size v < m_capacity v"
  then show unsafe: "push_back_unsafe v e =
      (v\<lparr>m_data := (m_data v)(m_size v \<mapsto> e), m_size := m_size v + 1\<rparr>, sint (m_size v))"
    by (rule push_back_unsafe_room)
  with push_back_same [of v e] show "push_back v e =
      (v\<lparr>m_data := (m_data v)(m_size v \<mapsto> e), m_size := m_size v + 1\<rparr>, sint (m_size v))"
    by simp
  from room show "unat (m_size v + 1) = unat (m_size v) + 1"
    by (rule unat_succ_below)
next
  assume "unat (m_size v) < 2 ^ 31"
  then show "sint (m_size v) = int (unat (m_size v))"
    by (rule sint_of_small)
qed

theorem Vec_push_back_result_witness:
  "m_size (Vec_new 0 :: nat Vec) = m_capacity (Vec_new 0 :: nat Vec) \<and>
   push_back_unsafe (Vec_new 0) (7 :: nat) = (Vec_new 0, - 1) \<and>
   push_back (Vec_new 0) (7 :: nat) = (Vec_new 0, - 1) \<and>
   m_size (Vec_new 2 :: nat Vec) < m_capacity (Vec_new 2 :: nat Vec) \<and>
   snd (push_back_unsafe (Vec_new 2) (7 :: nat)) = 0 \<and>
   m_size (fst (push_back_unsafe (Vec_new 2) (7 :: nat))) = 1 \<and>
   m_data (fst (push_back_unsafe (Vec_new 2) (7 :: nat))) 0 = Some 7 \<and>
   snd (push_back (Vec_new 2) (7 :: nat)) = 0"
  using Vec_push_back_result [of "Vec_new 0 :: nat Vec" 7]
    Vec_push_back_result [of "Vec_new 2 :: nat Vec" 7]
  by (simp add: Vec_new_def)

text \<open>
  The claim as written (the value returned at \<open>size < capacity\<close> is the slot index) fails
  for a buffer of capacity \<open>2^31 + 1\<close> holding \<open>2^31\<close> elements: the element goes
  into slot \<open>2147483648\<close> and the \<open>int\<close> returned is \<open>-2147483648\<close>.
\<close>

theorem Vec_push_back_counterexample:
  "m_size (resize_size (Vec_new 2147483649 :: nat Vec) 2147483648)
     < m_capacity (resize_size (Vec_new 2147483649 :: nat Vec) 2147483648) \<and>
   m_data (fst (push_back_unsafe (resize_size (Vec_new 2147483649) 2147483648) (7 :: nat)))
     2147483648 = Some 7 \<and>
   snd (push_back_unsafe (resize_size (Vec_new 2147483649) 2147483648) (7 :: nat))
     = - 2147483648 \<and>
   snd (push_back_unsafe (resize_size (Vec_new 2147483649) 2147483648) (7 :: nat))
     \<noteq> int (unat (m_size (resize_size (Vec_new 2147483649 :: nat Vec) 2147483648)))"
  by (simp add: push_back_unsafe_def resize_size_def Vec_new_def Let_def)

text \<open>
  C10. \<open>reserve\<close> sets the capacity, replaces the storage by a fresh allocation in which
  no slot is written, and leaves \<open>m_size\<close> as it was. A buffer built with capacity
  \<open>cap\<close> that holds the \<open>k\<close> elements of \<open>es\<close> (all appended within the capacity)
  still reports size \<open>k\<close> after \<open>reserve\<close>, which is nonzero as soon as one element was
  appended.
\<close>

theorem Vec_reserve_keeps_size:
  fixes v :: "'a Vec" and es :: "'a list"
  shows "m_size (reserve v c) = m_size v \<and>
   m_capacity (reserve v c) = c \<and>
   (\<forall>i. m_data (reserve v c) i = None) \<and>
   (length es \<le> unat cap \<longrightarrow>
      unat (m_size (push_all (Vec_new cap) es)) = length es \<and>
      unat (m_size (reserve (push_all (Vec_new cap) es) c)) = length es \<and>
      (es \<noteq> [] \<longrightarrow> m_size (reserve (push_all (Vec_new cap) es) c) \<noteq> 0))"
proof -
  have basic: "m_size (reserve v c) = m_size v" "m_capacity (reserve v c) = c"
    "\<forall>i. m_data (reserve v c) i = None" for v :: "'b Vec" and c
    by (simp_all add: reserve_def)
  have filled: "unat (m_size (push_all (Vec_new cap) es)) = length es"
    if le: "length es \<le> unat cap"
  proof -
    have "unat (m_size (Vec_new cap :: 'a Vec)) + length es \<le> unat (m_capacity (Vec_new cap :: 'a Vec))"
      using le by (simp add: Vec_new_def)
    from push_all_size [OF this]
    have "m_size (push_all (Vec_new cap) es) = of_nat (length es)"
      by (simp add: Vec_new_def)
    then show ?thesis
      using le_unat_uoi [OF le] by simp
  qed
  have nonzero: "m_size (push_all (Vec_new cap) es) \<noteq> 0"
    if "length es \<le> unat cap" "es \<noteq> []"
  proof
    assume "m_size (push_all (Vec_new cap) es) = 0"
    then have "unat (m_size (push_all (Vec_new cap) es)) = 0" by simp
    with filled [OF that(1)] that(2) show False by simp
  qed
  show ?thesis
    using filled nonzero by (simp add: basic)
qed

theorem Vec_reserve_keeps_size_witness:
  "length [3, 4 :: nat] \<le> unat (5 :: 32 word) \<and>
   unat (m_size (push_all (Vec_new 5) [3, 4 :: nat])) = 2 \<and>
   unat (m_size (reserve (push_all (Vec_new 5) [3, 4 :: nat]) 1)) = 2 \<and>
   m_capacity (reserve (push_all (Vec_new 5) [3, 4 :: nat]) 1) = 1 \<and>
   m_data (reserve (push_all (Vec_new 5) [3, 4 :: nat]) 1) 0 = None \<and>
   m_size (reserve (push_all (Vec_new 5) [3, 4 :: nat]) 1) \<noteq> 0"
  using Vec_reserve_keeps_size [of "push_all (Vec_new 5) [3, 4 :: nat]" 1 "[3, 4 :: nat]" 5]
  by (simp add: reserve_def)

section \<open>Facts about the floating-point numbers\<close>

lemma Fin_less [simp]: "Fin x < Fin y \<longleftrightarrow> x < y"
  by (auto simp: less_fp_def)

lemma NaN_least [simp]: "\<not> a < NaN"
  by (cases a) (simp_all add: less_fp_def)

lemma PInf_greatest [simp]: "\<not> PInf < a"
  by (cases a) (simp_all add: less_fp_def)

lemma Fin_PInf [simp]: "Fin x < PInf" "MInf < Fin x" "MInf < PInf"
  by (simp_all add: less_fp_def)

lemma fp_less_trans: "fp_less a b \<Longrightarrow> fp_less b c \<Longrightarrow> fp_less a c"
  by (auto simp: fp_less_def)

lemma fp_le_less_trans: "fp_le a b \<Longrightarrow> fp_less b c \<Longrightarrow> fp_less a c"
  by (auto simp: fp_less_def fp_le_def)

lemma fp_less_imp_le: "fp_less a b \<Longrightarrow> fp_le a b"
  by (auto simp: fp_less_def fp_le_def)

lemma fp_le_or_less: "a \<noteq> NaN \<Longrightarrow> b \<noteq> NaN \<Longrightarrow> fp_le a b \<or> fp_less b a"
  by (auto simp: fp_less_def fp_le_def)

text \<open>The definitions that evaluate a rounding on a numeral, and the square roots that
  the examples take.\<close>

lemmas rounding = to_float_def to_double_def round_to_def exponent_def round_even_def pow2_def
  bit_length.simps fp_sub_def fp_less_def fp_le_def fp_eq_def FLT_MAX_def DBL_MAX_def Let_def

lemma sqrt_values:
  "sqrt (1 / 4) = 1 / 2" "sqrt 100 = 10" "sqrt (361 / 4) = 19 / 2"
  by (rule real_sqrt_unique, simp add: power2_eq_square, simp)+

lemma to_float_values:
  "to_float 1 = Fin 1" "to_float 2 = Fin 2" "to_float 3 = Fin 3" "to_float 10 = Fin 10"
  "to_float (1 / 2) = Fin (1 / 2)" "to_float (1 / 4) = Fin (1 / 4)"
  "to_float (19 / 2) = Fin (19 / 2)" "to_float 100 = Fin 100" "to_float (361 / 4) = Fin (361 / 4)"
  "to_float (- 10) = Fin (- 10)" "to_float (- (1 / 2)) = Fin (- (1 / 2))"
  "to_float (- (19 / 2)) = Fin (- (19 / 2))"
  by (simp_all add: rounding)

lemma to_double_values:
  "to_double 1 = Fin 1" "to_double (1 / 4) = Fin (1 / 4)" "to_double 100 = Fin 100"
  "to_double (361 / 4) = Fin (361 / 4)"
  by (simp_all add: rounding)


lemma to_float_overflow:
  "to_float (2 * FLT_MAX) = PInf" "to_float (FLT_MAX * FLT_MAX) = PInf"
  "to_double (FLT_MAX * FLT_MAX) = Fin (FLT_MAX * FLT_MAX)"
  "to_float FLT_MAX = Fin FLT_MAX" "to_float (- FLT_MAX) = Fin (- FLT_MAX)"
  by (simp_all add: rounding)


subsection \<open>Rounding to the nearest\<close>

text \<open>
  \<open>bit_length k\<close> is the number of binary digits of \<open>k\<close>, so \<open>exponent x\<close> is the
  \<open>e\<close> with \<open>2^e \<le> \<bar>x\<bar> < 2^(e+1)\<close>, and \<open>round_to\<close> yields the multiple \<open>m * u\<close> of the
  spacing \<open>u = 2^(e - p + 1)\<close> of the format that is nearer to \<open>x\<close> than half a spacing.
\<close>

lemma bit_length_bounds:
  "0 < k \<Longrightarrow> 2 ^ (bit_length k - 1) \<le> k \<and> k < 2 ^ bit_length k"
proof (induction k rule: bit_length.induct)
  case (1 k)
  show ?case
  proof (cases "k div 2 = 0")
    case True
    with 1 have "k = 1" by (cases k) auto
    then show ?thesis
      by (simp add: bit_length.simps)
  next
    case False
    then have pos: "0 < k div 2" by simp
    with 1 have IH: "2 ^ (bit_length (k div 2) - 1) \<le> k div 2" "k div 2 < 2 ^ bit_length (k div 2)"
      by simp_all
    have bl: "bit_length k = Suc (bit_length (k div 2))"
      using 1 by (subst bit_length.simps) simp
    have pos': "0 < bit_length (k div 2)"
      using pos by (subst bit_length.simps) simp
    then obtain b where b: "bit_length (k div 2) = Suc b"
      by (cases "bit_length (k div 2)") auto
    from IH show ?thesis
      unfolding bl b by simp linarith
  qed
qed

lemma bit_length_unique:
  assumes "2 ^ a \<le> k" "k < 2 ^ Suc a"
  shows "bit_length k = Suc a"
proof -
  from assms have pos: "0 < k"
    by (metis less_le_trans zero_less_numeral zero_less_power)
  from bit_length_bounds [OF pos] have lo: "2 ^ (bit_length k - 1) \<le> k" and hi: "k < 2 ^ bit_length k"
    by simp_all
  from assms(1) hi have "(2 :: nat) ^ a < 2 ^ bit_length k" by (rule le_less_trans)
  then have 1: "a < bit_length k" by simp
  from lo assms(2) have "(2 :: nat) ^ (bit_length k - 1) < 2 ^ Suc a" by (rule le_less_trans)
  then have 2: "bit_length k - 1 < Suc a" by (simp only: power_strict_increasing_iff) 
  from 1 2 show ?thesis by simp
qed


lemma pow2_pos [simp]: "0 < pow2 e"
  by (simp add: pow2_def)

lemma pow2_nat: "pow2 (int a) = 2 ^ a"
  by (simp add: pow2_def)

lemma pow2_neg: "pow2 (- int a) = 1 / 2 ^ a"
  by (simp add: pow2_def)

lemma exponent_eq:
  assumes lo: "pow2 e \<le> \<bar>x\<bar>" and hi: "\<bar>x\<bar> < pow2 (e + 1)"
  shows "exponent x = e"
proof (cases "0 \<le> e")
  case True
  then obtain a where e: "e = int a"
    using nonneg_int_cases by blast
  have e1: "e + 1 = int (Suc a)"
    by (simp add: e)
  from lo have lo': "2 ^ a \<le> \<bar>x\<bar>"
    by (simp add: e pow2_nat)
  from hi have hi': "\<bar>x\<bar> < 2 ^ Suc a"
    unfolding e1 pow2_nat .
  have one: "1 \<le> \<bar>x\<bar>"
    using lo' by (rule order_trans [rotated]) simp
  have "(2 :: int) ^ a \<le> \<lfloor>\<bar>x\<bar>\<rfloor>"
    using lo' by (simp add: le_floor_iff)
  then have k1: "2 ^ a \<le> nat \<lfloor>\<bar>x\<bar>\<rfloor>"
    by (simp add: le_nat_iff)
  have "\<lfloor>\<bar>x\<bar>\<rfloor> < (2 :: int) ^ Suc a"
    using hi' by (simp add: floor_less_iff)
  then have k2: "nat \<lfloor>\<bar>x\<bar>\<rfloor> < 2 ^ Suc a"
    by (simp add: nat_less_iff)
  from bit_length_unique [OF k1 k2] one show ?thesis
    by (simp add: exponent_def e)
next
  case False
  then have "e < 0"
    by simp
  then obtain m where e: "e = - int (Suc m)"
    using negD by blast
  have e1: "e + 1 = - int m"
    by (simp add: e)
  from lo have lo': "1 / 2 ^ Suc m \<le> \<bar>x\<bar>"
    unfolding e pow2_neg .
  from hi have hi': "\<bar>x\<bar> < 1 / 2 ^ m"
    unfolding e1 pow2_neg .
  have pos: "0 < \<bar>x\<bar>"
    using lo' by (rule less_le_trans [rotated]) simp
  have "1 / 2 ^ m \<le> (1 :: real)"
    by simp
  with hi' have small: "\<not> 1 \<le> \<bar>x\<bar>"
    by linarith
  have up: "1 / \<bar>x\<bar> \<le> 2 ^ Suc m"
    using lo' pos by (simp add: field_simps)
  have down: "2 ^ m < 1 / \<bar>x\<bar>"
    using hi' pos by (simp add: field_simps)
  have c1: "\<lceil>1 / \<bar>x\<bar>\<rceil> \<le> 2 ^ Suc m"
    using up by (simp add: ceiling_le_iff)
  have c2: "(2 :: int) ^ m < \<lceil>1 / \<bar>x\<bar>\<rceil>"
    using down by (simp add: less_ceiling_iff)
  have k1: "2 ^ m \<le> nat (\<lceil>1 / \<bar>x\<bar>\<rceil> - 1)"
    using c2 by (simp add: le_nat_iff)
  have "(1 :: int) \<le> 2 ^ m"
    by simp
  with c2 have nn: "0 \<le> \<lceil>1 / \<bar>x\<bar>\<rceil> - 1"
    by linarith
  have k2: "nat (\<lceil>1 / \<bar>x\<bar>\<rceil> - 1) < 2 ^ Suc m"
    using c1 nn by (simp add: nat_less_iff)
  from bit_length_unique [OF k1 k2] small show ?thesis
    by (simp add: exponent_def e)
qed

lemma round_even_near:
  assumes "\<bar>q - of_int m\<bar> < 1 / 2"
  shows "round_even q = m"
proof (cases "of_int m \<le> q")
  case True
  with assms have "\<lfloor>q\<rfloor> = m"
    by (intro floor_unique) linarith+
  with assms True show ?thesis
    by (simp add: round_even_def Let_def)
next
  case False
  with assms have f: "\<lfloor>q\<rfloor> = m - 1"
    by (intro floor_unique) simp_all
  with assms False show ?thesis
    by (simp add: round_even_def Let_def)
qed

lemma round_to_near:
  assumes lo: "pow2 e \<le> \<bar>x\<bar>" and hi: "\<bar>x\<bar> < pow2 (e + 1)" and emin: "emin \<le> e"
    and near: "\<bar>x / pow2 (e - int p + 1) - of_int m\<bar> < 1 / 2"
    and fits: "\<bar>of_int m * pow2 (e - int p + 1)\<bar> \<le> big"
  shows "round_to p emin big x = Fin (of_int m * pow2 (e - int p + 1))"
proof -
  have "0 < \<bar>x\<bar>"
    using lo by (rule less_le_trans [rotated]) simp
  then have nz: "x \<noteq> 0"
    by simp
  have ex: "max (exponent x) emin = e"
    using exponent_eq [OF lo hi] emin by simp
  have re: "round_even (x / pow2 (e - int p + 1)) = m"
    using near by (rule round_even_near)
  from fits show ?thesis
    by (simp add: round_to_def Let_def nz ex re abs_le_iff not_less)
qed

lemma sqrt_between:
  assumes "0 \<le> a" "a\<^sup>2 < y" "y < b\<^sup>2" "0 \<le> b"
  shows "a < sqrt y \<and> sqrt y < b"
  using assms by (auto intro: real_less_rsqrt real_less_lsqrt)

lemma near_scaled:
  assumes u: "0 < u" and lo: "(of_int m - 1 / 2) * u < x" and hi: "x < (of_int m + 1 / 2) * u"
  shows "\<bar>x / u - of_int m\<bar> < 1 / (2 :: real)"
proof -
  from u lo have "of_int m - 1 / 2 < x / u"
    by (simp add: pos_less_divide_eq)
  moreover from u hi have "x / u < of_int m + 1 / 2"
    by (simp add: pos_divide_less_eq)
  ultimately show ?thesis
    unfolding abs_less_iff by linarith
qed

text \<open>The square root of the \<open>float\<close> nearest to the square of \<open>0.3f\<close> is
  \<open>0.3f = 5033165 / 2^24\<close>.\<close>

lemma to_float_sqrt_example: "to_float (sqrt (3019899 / 2 ^ 25)) = Fin (5033165 / 2 ^ 24)"
proof -
  let ?y = "3019899 / 2 ^ 25 :: real"
  have b: "(10066330 - 1 / 2) / 2 ^ 25 < sqrt ?y \<and> sqrt ?y < (10066330 + 1 / 2) / 2 ^ 25"
    by (rule sqrt_between) (simp_all add: power2_eq_square)
  have "round_to 24 (- 126) FLT_MAX (sqrt ?y) = Fin (of_int 10066330 * pow2 (- 2 - int 24 + 1))"
  proof (rule round_to_near)
    show "pow2 (- 2) \<le> \<bar>sqrt ?y\<bar>"
      using b by (simp add: pow2_def)
    show "\<bar>sqrt ?y\<bar> < pow2 (- 2 + 1)"
      using b by (simp add: pow2_def)
    show "- 126 \<le> (- 2 :: int)"
      by simp
    show "\<bar>sqrt ?y / pow2 (- 2 - int 24 + 1) - of_int 10066330\<bar> < 1 / 2"
      by (rule near_scaled) (use b in \<open>simp_all add: pow2_def\<close>)
    show "\<bar>of_int 10066330 * pow2 (- 2 - int 24 + 1)\<bar> \<le> FLT_MAX"
      by (simp add: pow2_def FLT_MAX_def)
  qed
  then show ?thesis
    by (simp add: to_float_def pow2_def)
qed

text \<open>
  The \<open>double\<close> nearest to 1/3 is below 1/3, so the power of 64 with this exponent is
  below 4, and so is the \<open>double\<close> nearest to it.
\<close>

lemma ln_2_lower: "3 / 5 \<le> ln (2 :: real)"
proof -
  have "exp (3 / 5 :: real) \<le> 1 + 3 / 5 + (3 / 5)\<^sup>2"
    by (rule exp_bound) simp_all
  also have "\<dots> \<le> 2"
    by (simp add: power2_eq_square)
  finally have "exp (3 / 5 :: real) \<le> 2" .
  then show ?thesis
    by (subst ln_ge_iff) simp_all
qed

lemma cube_root_64_bounds:
  fixes t :: real
  assumes t: "t = 1 / 2 ^ 53"
  shows "4 - 3 / 2 * (4 * t) < 4 * 2 powr (- t) \<and> 4 * 2 powr (- t) < 4 - 1 / 2 * (4 * t)"
proof -
  let ?a = "t * ln 2"
  have tpos: "0 < t" "t < 1 / 6"
    by (simp_all add: t)
  have l2: "3 / 5 \<le> ln (2 :: real)" "ln (2 :: real) < 1"
    using ln_2_lower ln_2_less_1 by simp_all
  have apos: "0 < ?a"
    using tpos l2 by simp
  have alt: "?a < t"
    using tpos l2 by simp
  have p: "2 powr (- t) = exp (- ?a)"
    by (simp add: powr_def)
  have "1 + (- ?a) \<le> exp (- ?a)"
    by (rule exp_ge_add_one_self)
  with alt tpos have lower: "1 - 3 / 2 * t < exp (- ?a)"
    by linarith
  have "1 + ?a \<le> exp ?a"
    by (rule exp_ge_add_one_self)
  then have "1 / exp ?a \<le> 1 / (1 + ?a)"
    using apos by (intro divide_left_mono) simp_all
  then have e: "exp (- ?a) \<le> 1 / (1 + ?a)"
    by (simp add: exp_minus inverse_eq_divide)
  have "3 / 5 * t \<le> ?a"
    using l2 tpos by simp
  have "t / 2 + ?a * t / 2 < ?a"
  proof -
    have "?a * t / 2 \<le> ?a * (1 / 12)"
      using tpos apos by simp
    moreover have "t / 2 + ?a * (1 / 12) < ?a"
      using \<open>3 / 5 * t \<le> ?a\<close> tpos by linarith
    ultimately show ?thesis by linarith
  qed
  then have "1 < (1 + ?a) * (1 - t / 2)"
    by (simp add: algebra_simps)
  then have "1 / (1 + ?a) < 1 - t / 2"
    using apos by (simp add: pos_divide_less_eq mult.commute)
  with e have upper: "exp (- ?a) < 1 - 1 / 2 * t"
    by simp
  from lower upper show ?thesis
    unfolding p by simp
qed

lemma pow_64_third: "64 powr (6004799503160661 / 2 ^ 54) = 4 * 2 powr (- (1 / 2 ^ 53) :: real)"
proof -
  have "(64 :: real) = 2 powr 6"
    by simp
  then have "(64 :: real) powr (6004799503160661 / 2 ^ 54) = 2 powr (6 * (6004799503160661 / 2 ^ 54))"
    by (simp only: powr_powr)
  also have "6 * (6004799503160661 / 2 ^ 54) = (2 + - (1 / 2 ^ 53) :: real)"
    by simp
  also have "2 powr (2 + - (1 / 2 ^ 53)) = 2 powr 2 * 2 powr (- (1 / 2 ^ 53) :: real)"
    by (rule powr_add)
  finally show ?thesis
    by simp
qed

lemma to_double_cube_root_64:
  "to_double (64 powr (6004799503160661 / 2 ^ 54)) = Fin (4 - 1 / 2 ^ 51)"
proof -
  let ?x = "4 * 2 powr (- (1 / 2 ^ 53) :: real)"
  from cube_root_64_bounds [of "1 / 2 ^ 53"]
  have lo: "4 - 3 / 2 * (4 * (1 / 2 ^ 53)) < ?x" and hi: "?x < 4 - 1 / 2 * (4 * (1 / 2 ^ 53))"
    by simp_all
  have "round_to 53 (- 1022) DBL_MAX ?x = Fin (of_int (2 ^ 53 - 1) * pow2 (1 - int 53 + 1))"
  proof (rule round_to_near)
    show "pow2 1 \<le> \<bar>?x\<bar>"
      using lo by (simp add: pow2_def)
    show "\<bar>?x\<bar> < pow2 (1 + 1)"
      using hi by (simp add: pow2_def)
    show "- 1022 \<le> (1 :: int)"
      by simp
    show "\<bar>?x / pow2 (1 - int 53 + 1) - of_int (2 ^ 53 - 1)\<bar> < 1 / 2"
      by (rule near_scaled) (use lo hi in \<open>simp_all add: pow2_def\<close>)
    show "\<bar>of_int (2 ^ 53 - 1) * pow2 (1 - int 53 + 1)\<bar> \<le> DBL_MAX"
      by (simp add: pow2_def DBL_MAX_def)
  qed
  then show ?thesis
    unfolding to_double_def pow_64_third by (simp add: pow2_def)
qed

section \<open>Facts about the clustering engine\<close>

subsection \<open>Errors and loops\<close>

lemma bind_Inr_iff: "bind m f = Inr y \<longleftrightarrow> (\<exists>x. m = Inr x \<and> f x = Inr y)"
  by (cases m) (simp_all add: bind_def)

lemma bind_Inr [simp]: "bind (Inr x) f = f x"
  by (simp add: bind_def)

lemma bind_Inl [simp]: "bind (Inl e) f = Inl e"
  by (simp add: bind_def)

lemma forEach_append:
  "forEach (xs @ ys) body s = bind (forEach xs body s) (forEach ys body)"
  by (induction xs arbitrary: s) (simp_all add: bind_def split: sum.splits)

lemma forEach_concat:
  "forEach bs (\<lambda>b. forEach (g b) body) s = forEach (concat (map g bs)) body s"
  by (induction bs arbitrary: s) (simp_all add: forEach_append bind_def split: sum.splits)

lemma read_at_Inr_iff: "read_at xs i = Inr x \<longleftrightarrow> 0 \<le> i \<and> i < int (length xs) \<and> x = xs ! nat i"
  by (auto simp: read_at_def)

lemma write_at_Inr_iff: "write_at xs i v = Inr ys \<longleftrightarrow> 0 \<le> i \<and> i < int (length xs) \<and> ys = xs[nat i := v]"
  by (auto simp: write_at_def)

subsection \<open>The nearest-higher search\<close>

lemma pscan:
  assumes "foldl (pstep q dv) (d0, h0) cs = (d, h)"
    and "d0 \<noteq> NaN"
    and "\<forall>j\<in>set cs. q j \<longrightarrow> dv j \<noteq> NaN"
  shows "(if \<exists>j\<in>set cs. q j \<and> fp_less (dv j) d0
          then h \<in> set cs \<and> q h \<and> d = dv h \<and> fp_less d d0 \<and> (\<forall>j\<in>set cs. q j \<longrightarrow> fp_le d (dv j))
          else d = d0 \<and> h = h0)"
  using assms
proof (induction cs arbitrary: d0 h0)
  case Nil
  then show ?case by simp
next
  case (Cons c cs)
  from Cons.prems have nan: "\<forall>j\<in>set cs. q j \<longrightarrow> dv j \<noteq> NaN"
    by simp
  show ?case
  proof (cases "q c \<and> fp_less (dv c) d0")
    case True
    then have fold: "foldl (pstep q dv) (dv c, c) cs = (d, h)"
      using Cons.prems by (simp add: pstep_def)
    from True have c: "dv c \<noteq> NaN"
      by (simp add: fp_less_def)
    from Cons.IH [OF fold c nan] True nan c show ?thesis
      by (auto simp: fp_less_def fp_le_def split: if_splits)
  next
    case False
    then have fold: "foldl (pstep q dv) (d0, h0) cs = (d, h)"
      using Cons.prems by (auto simp add: pstep_def)
    from Cons.IH [OF fold Cons.prems(2) nan] False Cons.prems(2, 3) show ?thesis
      by (auto simp: fp_less_def fp_le_def split: if_splits)
  qed
qed

lemma higherStep_pure:
  assumes "higherStep dphi Ndim alg dm i (rho (points alg) ! i) j s = Inr r"
  shows "0 \<le> j \<and> j < int (length (rho (points alg))) \<and>
         distance dphi Ndim alg (int i) j = Inr (distv dphi Ndim alg i j) \<and>
         r = pstep (inNeighbourhood dphi Ndim alg dm i) (distv dphi Ndim alg i) s j"
  using assms
  by (cases s)
    (auto simp: higherStep_def bind_Inr_iff read_at_Inr_iff Let_def pstep_def
      inNeighbourhood_def higher_def distv_def split: if_splits)

lemma scan_pure:
  assumes "forEach cs (higherStep dphi Ndim alg dm i (rho (points alg) ! i)) s = Inr r"
  shows "(\<forall>j\<in>set cs. 0 \<le> j \<and> j < int (length (rho (points alg))) \<and>
            distance dphi Ndim alg (int i) j = Inr (distv dphi Ndim alg i j)) \<and>
         r = foldl (pstep (inNeighbourhood dphi Ndim alg dm i) (distv dphi Ndim alg i)) s cs"
  using assms
proof (induction cs arbitrary: s)
  case Nil
  then show ?case by simp
next
  case (Cons c cs)
  from Cons.prems obtain s1 where
    step: "higherStep dphi Ndim alg dm i (rho (points alg) ! i) c s = Inr s1"
    and rest: "forEach cs (higherStep dphi Ndim alg dm i (rho (points alg) ! i)) s1 = Inr r"
    by (auto simp: bind_Inr_iff)
  from higherStep_pure [OF step] Cons.IH [OF rest] show ?case
    by simp
qed

lemma inNeighbourhood_distv:
  assumes "inNeighbourhood dphi Ndim alg dm i j"
  shows "distv dphi Ndim alg i j \<noteq> NaN"
  using assms by (auto simp: inNeighbourhood_def distv_def fp_le_def split: sum.splits)

lemma selectable_iff:
  assumes "distance dphi Ndim alg (int i) j = Inr (distv dphi Ndim alg i j)"
  shows "selectable dphi Ndim alg dm i j \<longleftrightarrow>
     inNeighbourhood dphi Ndim alg dm i j \<and> fp_less (distv dphi Ndim alg i j) (Fin FLT_MAX)"
  using assms by (auto simp: selectable_def inNeighbourhood_def)

lemma nearestHigherOf_spec:
  assumes run: "nearestHigherOf ops dphi Ndim tiles dm i alg = Inr (d, h)"
  shows "\<exists>search_box. get_search_box ops Ndim alg tiles dm i = Inr search_box \<and>
     (\<forall>j\<in>set (candidates ops tiles search_box). 0 \<le> j \<and> j < int (length (rho (points alg))) \<and>
            (\<exists>x. distance dphi Ndim alg (int i) j = Inr x)) \<and>
     (if \<exists>j\<in>set (candidates ops tiles search_box). selectable dphi Ndim alg dm i j
      then h \<in> set (candidates ops tiles search_box) \<and> selectable dphi Ndim alg dm i h \<and>
           distance dphi Ndim alg (int i) h = Inr d \<and>
           (\<forall>j\<in>set (candidates ops tiles search_box). inNeighbourhood dphi Ndim alg dm i j \<longrightarrow>
              (\<exists>x. distance dphi Ndim alg (int i) j = Inr x \<and> fp_le d x))
      else d = Fin FLT_MAX \<and> h = - 1)"
proof -
  from run obtain search_box where
    sb: "get_search_box ops Ndim alg tiles dm i = Inr search_box"
    and i: "int i < int (length (rho (points alg)))"
    and scan: "forEach (candidates ops tiles search_box)
        (higherStep dphi Ndim alg dm i (rho (points alg) ! i)) (Fin FLT_MAX, - 1) = Inr (d, h)"
    by (auto simp: nearestHigherOf_def bind_Inr_iff read_at_Inr_iff forEach_concat candidates_def)
  let ?cs = "candidates ops tiles search_box"
  let ?q = "inNeighbourhood dphi Ndim alg dm i"
  let ?dv = "distv dphi Ndim alg i"
  from scan_pure [OF scan] have
    valid: "\<forall>j\<in>set ?cs. 0 \<le> j \<and> j < int (length (rho (points alg))) \<and>
            distance dphi Ndim alg (int i) j = Inr (?dv j)"
    and fold: "foldl (pstep ?q ?dv) (Fin FLT_MAX, - 1) ?cs = (d, h)"
    by simp_all
  have sel: "selectable dphi Ndim alg dm i j \<longleftrightarrow> ?q j \<and> fp_less (?dv j) (Fin FLT_MAX)"
    if "j \<in> set ?cs" for j
    using that valid by (intro selectable_iff) simp
  have ex: "(\<exists>j\<in>set ?cs. ?q j \<and> fp_less (?dv j) (Fin FLT_MAX)) \<longleftrightarrow>
      (\<exists>j\<in>set ?cs. selectable dphi Ndim alg dm i j)"
    using sel by blast
  have nan: "\<forall>j\<in>set ?cs. ?q j \<longrightarrow> ?dv j \<noteq> NaN"
    using inNeighbourhood_distv by blast
  have "Fin FLT_MAX \<noteq> NaN"
    by simp
  from pscan [OF fold this nan]
  have scanned: "if \<exists>j\<in>set ?cs. selectable dphi Ndim alg dm i j
      then h \<in> set ?cs \<and> ?q h \<and> d = ?dv h \<and> fp_less d (Fin FLT_MAX) \<and>
           (\<forall>j\<in>set ?cs. ?q j \<longrightarrow> fp_le d (?dv j))
      else d = Fin FLT_MAX \<and> h = - 1"
    unfolding ex .
  show ?thesis
  proof (cases "\<exists>j\<in>set ?cs. selectable dphi Ndim alg dm i j")
    case True
    with scanned have h: "h \<in> set ?cs" "?q h" "d = ?dv h" "fp_less d (Fin FLT_MAX)"
      and least: "\<forall>j\<in>set ?cs. ?q j \<longrightarrow> fp_le d (?dv j)"
      by auto
    from h sel [OF h(1)] have "selectable dphi Ndim alg dm i h"
      by simp
    moreover from h valid have "distance dphi Ndim alg (int i) h = Inr d"
      by simp
    moreover have "\<forall>j\<in>set ?cs. ?q j \<longrightarrow> (\<exists>x. distance dphi Ndim alg (int i) j = Inr x \<and> fp_le d x)"
      using least valid by blast
    ultimately show ?thesis
      using True sb valid h(1) by (intro exI [of _ search_box]) simp
  next
    case False
    with scanned have "d = Fin FLT_MAX \<and> h = - 1"
      by simp
    with False sb valid show ?thesis
      by (intro exI [of _ search_box]) simp
  qed
qed

lemma distance_frame:
  "distance dphi Ndim (alg\<lparr>points := (points alg)\<lparr>delta := ds, nearestHigher := hs\<rparr>\<rparr>) =
   distance dphi Ndim alg"
  by (rule ext)+ (simp add: distance_def)

lemma higherStep_frame:
  "higherStep dphi Ndim (alg\<lparr>points := (points alg)\<lparr>delta := ds, nearestHigher := hs\<rparr>\<rparr>) =
   higherStep dphi Ndim alg"
  by (rule ext)+ (simp add: higherStep_def distance_frame)

lemma nearestHigherOf_frame:
  "nearestHigherOf ops dphi Ndim tiles dm i
     (alg\<lparr>points := (points alg)\<lparr>delta := ds, nearestHigher := hs\<rparr>\<rparr>) =
   nearestHigherOf ops dphi Ndim tiles dm i alg"
  by (simp add: nearestHigherOf_def higherStep_frame get_search_box_def get_xjBins_def)

lemma higherPoints_spec:
  assumes "forEach [0..<k] (higherPoint ops dphi Ndim tiles dm) alg = Inr alg'"
  shows "k \<le> length (delta (points alg)) \<and> k \<le> length (nearestHigher (points alg)) \<and>
     (\<exists>ds hs. alg' = alg\<lparr>points := (points alg)\<lparr>delta := ds, nearestHigher := hs\<rparr>\<rparr> \<and>
        length ds = length (delta (points alg)) \<and>
        length hs = length (nearestHigher (points alg)) \<and>
        (\<forall>i<k. nearestHigherOf ops dphi Ndim tiles dm i alg = Inr (ds ! i, hs ! i)))"
  using assms
proof (induction k arbitrary: alg')
  case 0
  then show ?case
    by (auto intro!: exI [of _ "delta (points alg)"] exI [of _ "nearestHigher (points alg)"])
next
  case (Suc k)
  from Suc.prems obtain alg1 where
    first: "forEach [0..<k] (higherPoint ops dphi Ndim tiles dm) alg = Inr alg1"
    and last: "higherPoint ops dphi Ndim tiles dm k alg1 = Inr alg'"
    by (auto simp: forEach_append bind_Inr_iff)
  from Suc.IH [OF first] obtain ds hs where
    k: "k \<le> length (delta (points alg))" "k \<le> length (nearestHigher (points alg))"
    and alg1: "alg1 = alg\<lparr>points := (points alg)\<lparr>delta := ds, nearestHigher := hs\<rparr>\<rparr>"
    and len: "length ds = length (delta (points alg))"
      "length hs = length (nearestHigher (points alg))"
    and earlier: "\<forall>i<k. nearestHigherOf ops dphi Ndim tiles dm i alg = Inr (ds ! i, hs ! i)"
    by blast
  from last obtain d h where
    res: "nearestHigherOf ops dphi Ndim tiles dm k alg = Inr (d, h)"
    and kd: "k < length ds" and kh: "k < length hs"
    and alg': "alg' = alg\<lparr>points := (points alg)\<lparr>delta := ds[k := d], nearestHigher := hs[k := h]\<rparr>\<rparr>"
    unfolding alg1 higherPoint_def nearestHigherOf_frame
    by (auto simp: bind_Inr_iff write_at_Inr_iff)
  have "\<forall>i<Suc k. nearestHigherOf ops dphi Ndim tiles dm i alg = Inr (ds[k := d] ! i, hs[k := h] ! i)"
    using earlier res kd kh by (auto simp: less_Suc_eq nth_list_update)
  then show ?case
    using kd kh len alg' by (intro conjI exI [of _ "ds[k := d]"] exI [of _ "hs[k := h]"]) simp_all
qed

lemma calculateDistanceToHigher_spec:
  assumes "calculateDistanceToHigher ops dphi Ndim tiles alg = Inr alg'"
    and "i < nat (n (points alg))"
  shows "rho (points alg') = rho (points alg) \<and>
     nearestHigherOf ops dphi Ndim tiles (dm_of alg) i alg =
       Inr (delta (points alg') ! i, nearestHigher (points alg') ! i)"
  using higherPoints_spec [of "nat (n (points alg))" ops dphi Ndim tiles "dm_of alg" alg alg'] assms
  by (auto simp: calculateDistanceToHigher_def dm_of_def Let_def)

lemmas search_defs = calculateDistanceToHigher_def higherPoint_def nearestHigherOf_def
  higherStep_def get_search_box_def get_xjBins_def searchBins_def distance_def
  read_at_def write_at_def plainDiff_def domain_default_def oneBin_def

text \<open>
  C1 (as amended). Suppose the nearest-higher search returns. The radius \<open>dm\<close> is the
  \<open>float\<close> product of \<open>outlierDeltaFactor\<close> and \<open>dc\<close>, and distances are the \<open>float\<close>s
  that \<open>distance\<close> computes. For every point \<open>i\<close>, among the candidates scanned in the
  search box of \<open>i\<close>: if some candidate is higher than \<open>i\<close>, within \<open>dm\<close> and nearer than
  \<open>FLT_MAX\<close>, the largest finite \<open>float\<close>, then \<open>nearestHigher[i]\<close> is such a candidate,
  \<open>delta[i]\<close> is its distance, and no candidate that is higher and within \<open>dm\<close> is nearer;
  otherwise \<open>delta[i]\<close> is \<open>FLT_MAX\<close> and \<open>nearestHigher[i]\<close> is \<open>-1\<close>. A
  \<open>nearestHigher[i]\<close> other than \<open>-1\<close> is denser than \<open>i\<close>, or as dense with a larger
  index. The densities are not changed by the search. When \<open>dm\<close> is below \<open>FLT_MAX\<close>,
  every point that is higher and within \<open>dm\<close> is nearer than \<open>FLT_MAX\<close>.
\<close>

theorem nearest_higher_result:
  assumes run: "calculateDistanceToHigher ops dphi Ndim tiles alg = Inr alg'"
    and i: "i < nat (n (points alg))"
  shows "\<exists>search_box.
     get_search_box ops Ndim alg tiles (dm_of alg) i = Inr search_box \<and>
     rho (points alg') = rho (points alg) \<and>
     (if \<exists>j\<in>set (candidates ops tiles search_box). selectable dphi Ndim alg (dm_of alg) i j
      then nearestHigher (points alg') ! i \<in> set (candidates ops tiles search_box) \<and>
           selectable dphi Ndim alg (dm_of alg) i (nearestHigher (points alg') ! i) \<and>
           distance dphi Ndim alg (int i) (nearestHigher (points alg') ! i) =
             Inr (delta (points alg') ! i) \<and>
           (\<forall>j\<in>set (candidates ops tiles search_box).
              inNeighbourhood dphi Ndim alg (dm_of alg) i j \<longrightarrow>
              (\<exists>x. distance dphi Ndim alg (int i) j = Inr x \<and> fp_le (delta (points alg') ! i) x))
      else delta (points alg') ! i = Fin FLT_MAX \<and> nearestHigher (points alg') ! i = - 1) \<and>
     (nearestHigher (points alg') ! i \<noteq> - 1 \<longrightarrow>
        higher (rho (points alg')) (int i) (nearestHigher (points alg') ! i)) \<and>
     (fp_less (dm_of alg) (Fin FLT_MAX) \<longrightarrow>
        (\<forall>j. selectable dphi Ndim alg (dm_of alg) i j \<longleftrightarrow>
             inNeighbourhood dphi Ndim alg (dm_of alg) i j))"
proof -
  let ?dm = "dm_of alg"
  let ?h = "nearestHigher (points alg') ! i"
  let ?d = "delta (points alg') ! i"
  from calculateDistanceToHigher_spec [OF run i] have
    rho: "rho (points alg') = rho (points alg)"
    and res: "nearestHigherOf ops dphi Ndim tiles ?dm i alg = Inr (?d, ?h)"
    by simp_all
  from nearestHigherOf_spec [OF res] obtain search_box where
    sb: "get_search_box ops Ndim alg tiles ?dm i = Inr search_box"
    and main: "if \<exists>j\<in>set (candidates ops tiles search_box). selectable dphi Ndim alg ?dm i j
      then ?h \<in> set (candidates ops tiles search_box) \<and>
           selectable dphi Ndim alg ?dm i ?h \<and>
           distance dphi Ndim alg (int i) ?h = Inr ?d \<and>
           (\<forall>j\<in>set (candidates ops tiles search_box).
              inNeighbourhood dphi Ndim alg ?dm i j \<longrightarrow>
              (\<exists>x. distance dphi Ndim alg (int i) j = Inr x \<and> fp_le ?d x))
      else ?d = Fin FLT_MAX \<and> ?h = - 1"
    by blast
  have nb: "higher (rho (points alg)) (int i) j" if "selectable dphi Ndim alg ?dm i j" for j
    using that by (simp add: selectable_def split: sum.splits)
  have link: "?h \<noteq> - 1 \<longrightarrow> higher (rho (points alg')) (int i) ?h"
    using main nb unfolding rho by (simp split: if_splits)
  have small: "fp_less ?dm (Fin FLT_MAX) \<longrightarrow>
      (\<forall>j. selectable dphi Ndim alg ?dm i j \<longleftrightarrow> inNeighbourhood dphi Ndim alg ?dm i j)"
    by (auto simp: selectable_def inNeighbourhood_def intro: fp_le_less_trans split: sum.splits)
  from sb main rho link small show ?thesis
    by blast
qed

theorem nearest_higher_result_witness:
  "calculateDistanceToHigher oneBin plainDiff 1 three_tiles three_points = Inr three_searched \<and>
   (0 :: nat) < nat (n (points three_points)) \<and>
   (2 :: nat) < nat (n (points three_points)) \<and>
   dm_of three_points = Fin 2 \<and>
   fp_less (dm_of three_points) (Fin FLT_MAX) \<and>
   get_search_box oneBin 1 three_points three_tiles (Fin 2) 0 = Inr [0] \<and>
   candidates oneBin three_tiles [0] = [0, 1, 2] \<and>
   selectable plainDiff 1 three_points (Fin 2) 0 1 \<and>
   \<not> selectable plainDiff 1 three_points (Fin 2) 2 0 \<and>
   \<not> selectable plainDiff 1 three_points (Fin 2) 2 1 \<and>
   \<not> selectable plainDiff 1 three_points (Fin 2) 2 2 \<and>
   delta (points three_searched) ! 0 = Fin (1 / 2) \<and>
   nearestHigher (points three_searched) ! 0 = 1 \<and>
   delta (points three_searched) ! 2 = Fin FLT_MAX \<and>
   nearestHigher (points three_searched) ! 2 = - 1 \<and>
   higher (rho (points three_searched)) 0 1"
proof -
  have run: "calculateDistanceToHigher oneBin plainDiff 1 three_tiles three_points =
      Inr three_searched"
    by (simp add: search_defs three_points_def three_searched_def three_tiles_def
        rounding sqrt_values upt_conv_Cons)
  have i0: "(0 :: nat) < nat (n (points three_points))"
    and i2: "(2 :: nat) < nat (n (points three_points))"
    by (simp_all add: three_points_def)
  have dm: "dm_of three_points = Fin 2"
    by (simp add: dm_of_def three_points_def rounding)
  have small: "fp_less (dm_of three_points) (Fin FLT_MAX)"
    by (simp add: dm fp_less_def FLT_MAX_def)
  have sb: "get_search_box oneBin 1 three_points three_tiles (Fin 2) 0 = Inr [0]"
    by (simp add: search_defs three_points_def rounding)
  have cs: "candidates oneBin three_tiles [0] = [0, 1, 2]"
    by (simp add: candidates_def oneBin_def three_tiles_def)
  have d: "distance plainDiff 1 three_points 0 1 = Inr (Fin (1 / 2))"
    "distance plainDiff 1 three_points 2 0 = Inr (Fin 10)"
    "distance plainDiff 1 three_points 2 1 = Inr (Fin (19 / 2))"
    "distance plainDiff 1 three_points 2 2 = Inr (Fin 0)"
    by (simp_all add: distance_def three_points_def read_at_def plainDiff_def rounding sqrt_values)
  have nb: "selectable plainDiff 1 three_points (Fin 2) 0 1"
    "\<not> selectable plainDiff 1 three_points (Fin 2) 2 0"
    "\<not> selectable plainDiff 1 three_points (Fin 2) 2 1"
    "\<not> selectable plainDiff 1 three_points (Fin 2) 2 2"
    using d by (simp_all add: selectable_def higher_def three_points_def fp_less_def fp_le_def
        fp_eq_def FLT_MAX_def)
  have vals: "delta (points three_searched) ! 0 = Fin (1 / 2)"
    "nearestHigher (points three_searched) ! 0 = 1"
    "delta (points three_searched) ! 2 = Fin FLT_MAX"
    "nearestHigher (points three_searched) ! 2 = - 1"
    "higher (rho (points three_searched)) 0 1"
    by (simp_all add: three_searched_def three_points_def higher_def fp_less_def fp_eq_def)
  from nearest_higher_result [OF run i0] nearest_higher_result [OF run i2]
  show ?thesis
    using run i0 i2 dm small sb cs nb vals by simp
qed

text \<open>
  The claim as written promises the nearest of the points that are higher and within
  \<open>dm\<close>, and \<open>+infinity\<close> when there is none. With \<open>dc = FLT_MAX\<close> and
  \<open>outlierDeltaFactor = 2\<close> the radius \<open>dm\<close> is \<open>+infinity\<close>; point 1, at distance
  \<open>+infinity\<close> of point 0, is denser and within \<open>dm\<close>, and is scanned; yet the code leaves
  \<open>nearestHigher[0] = -1\<close>, and the \<open>delta[0]\<close> that marks it is \<open>FLT_MAX\<close>, which is
  not \<open>+infinity\<close>. Point 1 has no scanned point that is higher, and its \<open>delta[1]\<close> is
  \<open>FLT_MAX\<close> as well.
\<close>

theorem nearest_higher_counterexample:
  "dm_of far_points = PInf \<and>
   get_search_box oneBin 1 far_points [0, 1] PInf 0 = Inr [0, 0] \<and>
   candidates oneBin [0, 1] [0, 0] = [0, 1, 0, 1] \<and>
   distance plainDiff 1 far_points 0 1 = Inr PInf \<and>
   inNeighbourhood plainDiff 1 far_points PInf 0 1 \<and>
   calculateDistanceToHigher oneBin plainDiff 1 [0, 1] far_points = Inr far_points \<and>
   nearestHigher (points far_points) ! 0 = - 1 \<and>
   delta (points far_points) ! 0 = Fin FLT_MAX \<and>
   \<not> inNeighbourhood plainDiff 1 far_points PInf 1 0 \<and>
   \<not> inNeighbourhood plainDiff 1 far_points PInf 1 1 \<and>
   nearestHigher (points far_points) ! 1 = - 1 \<and>
   delta (points far_points) ! 1 = Fin FLT_MAX \<and>
   Fin FLT_MAX \<noteq> PInf"
proof -
  have dm: "dm_of far_points = PInf"
    by (simp add: dm_of_def far_points_def to_float_overflow)
  have sb: "get_search_box oneBin 1 far_points [0, 1] PInf 0 = Inr [0, 0]"
    by (simp add: search_defs far_points_def fp_sub_def fp_less_def numeral_2_eq_2)
  have cs: "candidates oneBin [0, 1] [0, 0] = [0, 1, 0, 1]"
    by (simp add: candidates_def oneBin_def)
  have d: "distance plainDiff 1 far_points 0 1 = Inr PInf"
    "distance plainDiff 1 far_points 0 0 = Inr (Fin 0)"
    "distance plainDiff 1 far_points 1 0 = Inr PInf"
    "distance plainDiff 1 far_points 1 1 = Inr (Fin 0)"
    by (simp_all add: distance_def far_points_def read_at_def plainDiff_def fp_sub_def
        to_float_overflow rounding)
  have nb: "inNeighbourhood plainDiff 1 far_points PInf 0 1"
    "\<not> inNeighbourhood plainDiff 1 far_points PInf 1 0"
    "\<not> inNeighbourhood plainDiff 1 far_points PInf 1 1"
    using d
    by (simp_all add: inNeighbourhood_def higher_def far_points_def fp_less_def fp_le_def fp_eq_def)
  have run: "calculateDistanceToHigher oneBin plainDiff 1 [0, 1] far_points = Inr far_points"
    using d
    by (simp add: calculateDistanceToHigher_def higherPoint_def nearestHigherOf_def
        higherStep_def get_search_box_def get_xjBins_def searchBins_def
        read_at_def write_at_def domain_default_def oneBin_def
        far_points_def to_float_overflow fp_sub_def fp_less_def fp_le_def fp_eq_def
        numeral_2_eq_2 upt_conv_Cons)
  show ?thesis
    using dm sb cs d(1) nb run by (simp add: far_points_def)
qed

text \<open>
  The radius and the distances are the rounded ones. With \<open>dc = 0.1f\<close> and
  \<open>outlierDeltaFactor = 3\<close> the exact product is below \<open>0.3f\<close> and the \<open>float\<close> \<open>dm\<close>
  is \<open>0.3f\<close>; the denser point at \<open>0.3f\<close> is at distance \<open>0.3f\<close> of the point at 0, and
  the search takes it.
\<close>

lemma tenth_radius_values:
  "dm_of tenth_radius = Fin (5033165 / 2 ^ 24)"
  "3 * (13421773 / 2 ^ 27) < (5033165 / 2 ^ 24 :: real)"
  "distance plainDiff 1 tenth_radius 0 1 = Inr (Fin (5033165 / 2 ^ 24))"
proof -
  show "dm_of tenth_radius = Fin (5033165 / 2 ^ 24)"
    by (simp add: dm_of_def tenth_radius_def rounding)
  show "3 * (13421773 / 2 ^ 27) < (5033165 / 2 ^ 24 :: real)"
    by simp
  have "distance plainDiff 1 tenth_radius 0 1 =
      Inr (fp_sqrt to_float (Fin (3019899 / 33554432)))"
    by (simp add: distance_def tenth_radius_def read_at_def plainDiff_def domain_default_def
      rounding del: fp_sqrt.simps)
  also have "fp_sqrt to_float (Fin (3019899 / 33554432)) = Fin (5033165 / 2 ^ 24)"
    using to_float_sqrt_example by simp
  finally show "distance plainDiff 1 tenth_radius 0 1 = Inr (Fin (5033165 / 2 ^ 24))" .
qed


lemma nearest_higher_rounded_radius:
  "calculateDistanceToHigher oneBin plainDiff 1 [0, 1] tenth_radius =
     Inr (tenth_radius\<lparr>points := (points tenth_radius)
       \<lparr>delta := [Fin (5033165 / 2 ^ 24), Fin FLT_MAX], nearestHigher := [1, - 1]\<rparr>\<rparr>)"
proof -
  have "distance plainDiff 1 tenth_radius 1 0 =
      Inr (fp_sqrt to_float (Fin (3019899 / 33554432)))"
    by (simp add: distance_def tenth_radius_def read_at_def plainDiff_def domain_default_def
      rounding del: fp_sqrt.simps)
  also have "fp_sqrt to_float (Fin (3019899 / 33554432)) = Fin (5033165 / 2 ^ 24)"
    using to_float_sqrt_example by simp
  finally have d10: "distance plainDiff 1 tenth_radius 1 0 = Inr (Fin (5033165 / 2 ^ 24))" .
  have d00: "distance plainDiff 1 tenth_radius 0 0 = Inr (Fin 0)"
    "distance plainDiff 1 tenth_radius 1 1 = Inr (Fin 0)"
    by (simp_all add: distance_def tenth_radius_def read_at_def plainDiff_def domain_default_def
      rounding)
  have fields: "n (points tenth_radius) = 2" "rho (points tenth_radius) = [Fin 1, Fin 2]"
    "coordinates (points tenth_radius) = [[Fin 0, Fin (5033165 / 16777216)]]"
    "domains tenth_radius = [domain_default]"
    "delta (points tenth_radius) = [Fin FLT_MAX, Fin FLT_MAX]"
    "nearestHigher (points tenth_radius) = [- 1, - 1]"
    by (simp_all add: tenth_radius_def)
  have dm: "fp_mul to_float (outlierDeltaFactor tenth_radius) (dc tenth_radius) =
      Fin (5033165 / 2 ^ 24)"
    using tenth_radius_values(1) by (simp add: dm_of_def)
  show ?thesis
    unfolding calculateDistanceToHigher_def dm Let_def
    using tenth_radius_values(3) d10 d00
    by (simp add: higherPoint_def nearestHigherOf_def higherStep_def get_search_box_def
        get_xjBins_def searchBins_def read_at_def write_at_def domain_default_def oneBin_def
        fields distance_frame rounding upt_conv_Cons)
qed

subsection \<open>The search returns\<close>

text \<open>On an engine of the right shape and a grid whose bins hold point indices, no read
  or write of the search is out of range, and the search returns.\<close>

lemma below_nat: "i < nat m \<Longrightarrow> 0 \<le> m \<and> int i < m"
  by linarith

lemma forEach_returns:
  assumes "\<And>x s. x \<in> set xs \<Longrightarrow> \<exists>s'. body x s = Inr s'"
  shows "\<exists>s'. forEach xs body s = Inr s'"
  using assms
proof (induction xs arbitrary: s)
  case Nil
  then show ?case by simp
next
  case (Cons x xs)
  from Cons.prems [of x s] obtain s1 where "body x s = Inr s1" by auto
  moreover from Cons.IH [of s1] Cons.prems obtain s2 where "forEach xs body s1 = Inr s2"
    by auto
  ultimately show ?case by simp
qed

lemma shaped_row:
  assumes "well_shaped Ndim alg" "k < Ndim"
  shows "length (coordinates (points alg) ! k) = nat (n (points alg))"
  using assms by (auto simp: well_shaped_def list_all_length)

lemma distance_returns:
  assumes ws: "well_shaped Ndim alg"
    and i: "0 \<le> i" "i < n (points alg)" and j: "0 \<le> j" "j < n (points alg)"
  shows "\<exists>d. distance dphi Ndim alg i j = Inr d"
proof -
  have "\<exists>q. forEach [0..<Ndim] (\<lambda>k qSum.
             bind (read_at (coordinates (points alg)) (int k)) (\<lambda>row.
             bind (read_at row i) (\<lambda>xi.
             bind (read_at row j) (\<lambda>xj.
             bind (read_at (domains alg) (int k)) (\<lambda>d.
               (let delta_xk = dphi xi xj (min_d d) (max_d d)
                in Inr (fp_conv to_float
                     (fp_add to_double qSum (fp_mul to_double delta_xk delta_xk)))))))))
           (Fin 0) = Inr q"
  proof (rule forEach_returns)
    fix k :: nat and s :: fp
    assume "k \<in> set [0..<Ndim]"
    then have k: "k < Ndim" by simp
    with ws have "k < length (coordinates (points alg))" "k < length (domains alg)"
      by (simp_all add: well_shaped_def)
    with shaped_row [OF ws k] i j
    show "\<exists>s'. bind (read_at (coordinates (points alg)) (int k)) (\<lambda>row.
             bind (read_at row i) (\<lambda>xi.
             bind (read_at row j) (\<lambda>xj.
             bind (read_at (domains alg) (int k)) (\<lambda>d.
               (let delta_xk = dphi xi xj (min_d d) (max_d d)
                in Inr (fp_conv to_float
                     (fp_add to_double s (fp_mul to_double delta_xk delta_xk))))))))
           = Inr s'"
      by (simp add: read_at_def Let_def)
  qed
  then show ?thesis
    by (auto simp: distance_def)
qed

lemma get_search_box_returns:
  assumes ws: "well_shaped Ndim alg" and i: "i < nat (n (points alg))"
  shows "\<exists>sb. get_search_box ops Ndim alg tiles r i = Inr sb"
proof -
  have "\<exists>xs. get_xjBins ops Ndim alg tiles r i = Inr xs"
    unfolding get_xjBins_def
  proof (rule forEach_returns)
    fix k :: nat and s :: "int list list"
    assume "k \<in> set [0..<Ndim]"
    then have k: "k < Ndim" by simp
    with ws have "k < length (coordinates (points alg))" "k < length (domains alg)"
      by (simp_all add: well_shaped_def)
    with shaped_row [OF ws k] i
    show "\<exists>s'. bind (read_at (coordinates (points alg)) (int k)) (\<lambda>row.
             bind (read_at row (int i)) (\<lambda>x.
             bind (read_at (domains alg) (int k)) (\<lambda>d.
             Inr (s @ [searchBins ops tiles d x r k])))) = Inr s'"
      by (simp add: read_at_def)
  qed
  then show ?thesis
    by (auto simp: get_search_box_def)
qed

lemma nearestHigherOf_returns:
  assumes ws: "well_shaped Ndim alg" and bins: "bins_hold_points ops tiles alg"
    and i: "i < nat (n (points alg))"
  shows "\<exists>d h. nearestHigherOf ops dphi Ndim tiles dm i alg = Inr (d, h)"
proof -
  from get_search_box_returns [OF ws i, of ops tiles dm] obtain sb where
    sb: "get_search_box ops Ndim alg tiles dm i = Inr sb" by blast
  have rd: "read_at (rho (points alg)) (int i) = Inr (rho (points alg) ! i)"
    using ws below_nat [OF i] by (simp add: read_at_def well_shaped_def)
  have "\<exists>s'. forEach (concat (map (bin ops tiles) sb))
      (higherStep dphi Ndim alg dm i (rho (points alg) ! i)) (Fin FLT_MAX, - 1) = Inr s'"
  proof (rule forEach_returns)
    fix j :: int and s :: "fp \<times> int"
    assume "j \<in> set (concat (map (bin ops tiles) sb))"
    with bins have j: "0 \<le> j" "j < n (points alg)"
      by (auto simp: bins_hold_points_def list_all_iff)
    from distance_returns [OF ws _ _ j, of "int i" dphi] below_nat [OF i] obtain d where
      "distance dphi Ndim alg (int i) j = Inr d" by auto
    moreover have "read_at (rho (points alg)) j = Inr (rho (points alg) ! nat j)"
      using ws j by (simp add: read_at_def well_shaped_def)
    ultimately show "\<exists>s'. higherStep dphi Ndim alg dm i (rho (points alg) ! i) j s = Inr s'"
      by (cases s) (simp add: higherStep_def Let_def)
  qed
  then show ?thesis
    using sb rd by (auto simp: nearestHigherOf_def forEach_concat)
qed

lemma calculateDistanceToHigher_returns:
  assumes ws: "well_shaped Ndim alg" and bins: "bins_hold_points ops tiles alg"
  shows "\<exists>alg'. calculateDistanceToHigher ops dphi Ndim tiles alg = Inr alg'"
proof -
  let ?dm = "dm_of alg"
  have "\<exists>ds hs. forEach [0..<k] (higherPoint ops dphi Ndim tiles ?dm) alg =
      Inr (alg\<lparr>points := (points alg)\<lparr>delta := ds, nearestHigher := hs\<rparr>\<rparr>) \<and>
      length ds = length (delta (points alg)) \<and>
      length hs = length (nearestHigher (points alg))"
    if "k \<le> nat (n (points alg))" for k
    using that
  proof (induction k)
    case 0
    show ?case
      by (auto intro!: exI [of _ "delta (points alg)"] exI [of _ "nearestHigher (points alg)"])
  next
    case (Suc k)
    then obtain ds hs where
      first: "forEach [0..<k] (higherPoint ops dphi Ndim tiles ?dm) alg =
        Inr (alg\<lparr>points := (points alg)\<lparr>delta := ds, nearestHigher := hs\<rparr>\<rparr>)"
      and len: "length ds = length (delta (points alg))"
        "length hs = length (nearestHigher (points alg))"
      by auto
    from Suc.prems have k: "k < nat (n (points alg))" by simp
    from below_nat [OF k] have kn: "int k < n (points alg)" "0 \<le> n (points alg)" by simp_all
    from nearestHigherOf_returns [OF ws bins k] obtain d h where
      res: "nearestHigherOf ops dphi Ndim tiles ?dm k alg = Inr (d, h)" by blast
    have "higherPoint ops dphi Ndim tiles ?dm k
        (alg\<lparr>points := (points alg)\<lparr>delta := ds, nearestHigher := hs\<rparr>\<rparr>) =
      Inr (alg\<lparr>points := (points alg)\<lparr>delta := ds[k := d], nearestHigher := hs[k := h]\<rparr>\<rparr>)"
      using res kn len ws
      by (simp add: higherPoint_def nearestHigherOf_frame write_at_def well_shaped_def)
    with first len show ?case
      by (intro exI [of _ "ds[k := d]"] exI [of _ "hs[k := h]"]) (simp add: forEach_append)
  qed
  from this [of "nat (n (points alg))"] show ?thesis
    by (auto simp: calculateDistanceToHigher_def dm_of_def Let_def)
qed

subsection \<open>The work-stack loop\<close>

lemma nearestHigherOf_higher:
  assumes run: "nearestHigherOf ops dphi Ndim tiles dm i alg = Inr (d, h)"
    and h: "h \<noteq> - 1"
  shows "0 \<le> h \<and> h < int (length (rho (points alg))) \<and> higher (rho (points alg)) (int i) h"
proof -
  from run obtain search_box where
    scan: "forEach (candidates ops tiles search_box)
        (higherStep dphi Ndim alg dm i (rho (points alg) ! i)) (Fin FLT_MAX, - 1) = Inr (d, h)"
    by (auto simp: nearestHigherOf_def bind_Inr_iff read_at_Inr_iff forEach_concat candidates_def)
  let ?cs = "candidates ops tiles search_box"
  let ?q = "inNeighbourhood dphi Ndim alg dm i"
  let ?dv = "distv dphi Ndim alg i"
  from scan_pure [OF scan] have
    valid: "\<forall>j\<in>set ?cs. 0 \<le> j \<and> j < int (length (rho (points alg))) \<and>
            distance dphi Ndim alg (int i) j = Inr (?dv j)"
    and fold: "foldl (pstep ?q ?dv) (Fin FLT_MAX, - 1) ?cs = (d, h)"
    by simp_all
  have "Fin FLT_MAX \<noteq> NaN"
    by simp
  moreover have "\<forall>j\<in>set ?cs. ?q j \<longrightarrow> ?dv j \<noteq> NaN"
    using inNeighbourhood_distv by blast
  ultimately have "h \<in> set ?cs" "?q h"
    using pscan [OF fold] h by (auto split: if_splits)
  with valid show ?thesis
    by (auto simp: inNeighbourhood_def split: sum.splits)
qed

lemma passId_loop:
  assumes "\<forall>j\<in>set fs. 0 \<le> j \<and> j < int (length ci)" and "0 \<le> i" and "i < int (length ci)"
  shows "\<exists>ci1. forEach fs (passId i) (ci, st) = Inr (ci1, st @ fs) \<and> length ci1 = length ci"
  using assms
proof (induction fs arbitrary: ci st)
  case Nil
  then show ?case by simp
next
  case (Cons j fs)
  let ?ci = "ci[nat j := ci ! nat i]"
  have step: "passId i j (ci, st) = Inr (?ci, st @ [j])"
    using Cons.prems by (simp add: passId_def read_at_def write_at_def)
  have "\<exists>ci1. forEach fs (passId i) (?ci, st @ [j]) = Inr (ci1, (st @ [j]) @ fs) \<and>
      length ci1 = length ?ci"
    by (rule Cons.IH) (use Cons.prems in simp_all)
  then show ?case
    using step by simp
qed

lemma trans_lower_rel: "trans (lower_rel rh)"
  by (rule transI) (auto simp: lower_rel_def higher_def fp_less_def fp_eq_def)

lemma lower_rel_irrefl: "(x, x) \<notin> lower_rel rh"
  by (simp add: lower_rel_def higher_def fp_less_def)

lemma wf_follower_rel:
  assumes sub: "r \<subseteq> lower_rel rh" and fin: "r \<subseteq> {0..<b} \<times> {0..<b}"
  shows "wf r"
proof (rule finite_acyclic_wf)
  have "finite ({0..<b} \<times> {0..<b} :: (int \<times> int) set)" by simp
  with fin show "finite r" by (rule finite_subset)
  have "r\<^sup>+ \<subseteq> (lower_rel rh)\<^sup>+" using sub by (rule trancl_mono_subset)
  also have "\<dots> = lower_rel rh" using trans_lower_rel by (rule trancl_id)
  finally show "acyclic r"
    using lower_rel_irrefl by (auto simp: acyclic_def)
qed

lemma expandClusters_terminates:
  assumes wf: "wf r"
    and edges: "\<forall>t j. 0 \<le> t \<and> t < int (length fl) \<and> j \<in> set (fl ! nat t) \<longrightarrow>
        (j, t) \<in> r \<and> 0 \<le> j \<and> j < int (length fl)"
    and len: "length ci = length fl"
    and stack: "\<forall>s\<in>set localStack. 0 \<le> s \<and> s < int (length fl)"
  shows "\<exists>ci'. expandClusters fl ci localStack = Some (Inr ci') \<and> length ci' = length fl"
proof -
  have "\<forall>ci localStack. mset localStack = M \<longrightarrow> length ci = length fl \<longrightarrow>
      (\<forall>s\<in>set localStack. 0 \<le> s \<and> s < int (length fl)) \<longrightarrow>
      (\<exists>ci'. expandClusters fl ci localStack = Some (Inr ci') \<and> length ci' = length fl)" for M
  proof (induction M rule: wf_induct_rule [OF wf_mult [OF wf]])
    case (1 M)
    show ?case
    proof (intro allI impI)
      fix ci localStack :: "int list"
      assume M: "mset localStack = M" and len: "length ci = length fl"
        and stack: "\<forall>s\<in>set localStack. 0 \<le> s \<and> s < int (length fl)"
      show "\<exists>ci'. expandClusters fl ci localStack = Some (Inr ci') \<and> length ci' = length fl"
      proof (cases "localStack = []")
        case True
        then show ?thesis
          using len by (simp add: expandClusters.simps)
      next
        case False
        let ?i = "last localStack"
        let ?rest = "butlast localStack"
        let ?fs = "fl ! nat ?i"
        have split: "localStack = ?rest @ [?i]"
          using False by simp
        have i: "0 \<le> ?i" "?i < int (length fl)"
          using stack False by simp_all
        have fs: "\<forall>j\<in>set ?fs. (j, ?i) \<in> r \<and> 0 \<le> j \<and> j < int (length fl)"
          using edges i by blast
        have rd: "read_at fl ?i = Inr ?fs"
          using i by (simp add: read_at_def)
        from passId_loop [of ?fs ci ?i ?rest] fs i len obtain ci1 where
          loop: "forEach ?fs (passId ?i) (ci, ?rest) = Inr (ci1, ?rest @ ?fs)"
          and len1: "length ci1 = length fl"
          by auto
        have unfold: "expandClusters fl ci localStack = expandClusters fl ci1 (?rest @ ?fs)"
          using False rd loop by (subst expandClusters.simps) (simp add: Let_def)
        have "mset localStack = mset ?rest + {#?i#}"
          by (subst split) simp
        moreover have "(mset ?rest + mset ?fs, mset ?rest + {#?i#}) \<in> mult r"
          by (rule one_step_implies_mult) (use fs in auto)
        ultimately have less: "(mset (?rest @ ?fs), M) \<in> mult r"
          using M by simp
        have stack1: "\<forall>s\<in>set (?rest @ ?fs). 0 \<le> s \<and> s < int (length fl)"
          using stack fs by (auto dest: in_set_butlastD)
        from 1 [OF less] len1 stack1 show ?thesis
          unfolding unfold by blast
      qed
    qed
  qed
  then show ?thesis
    using len stack by blast
qed

text \<open>
  C9. Take the \<open>nearestHigher\<close> array that the nearest-higher search produces, and
  follower lists over the same points in which every entry \<open>j\<close> of \<open>followers[t]\<close>
  has \<open>nearestHigher[j] = t\<close> (as it is when the lists are the inverse of
  \<open>nearestHigher\<close>). Then the work-stack loop, started on any stack of point indices and
  any \<open>clusterIndex\<close> array of the right length, returns: each link leads to a denser
  point, or to one as dense with a larger index, so the multiset of the stack decreases
  at every iteration.
\<close>

theorem expansion_terminates:
  assumes run: "calculateDistanceToHigher ops dphi Ndim tiles alg = Inr alg'"
    and fl: "length fl = nat (n (points alg))"
    and ci: "length ci = nat (n (points alg))"
    and inverse: "\<forall>t j. 0 \<le> t \<and> t < int (length fl) \<and> j \<in> set (fl ! nat t) \<longrightarrow>
        0 \<le> j \<and> j < int (length fl) \<and> nearestHigher (points alg') ! nat j = t"
    and stack: "\<forall>s\<in>set localStack. 0 \<le> s \<and> s < int (length fl)"
  shows "\<exists>ci'. expandClusters fl ci localStack = Some (Inr ci') \<and> length ci' = length ci"
proof -
  let ?b = "int (length fl)"
  let ?nh = "nearestHigher (points alg')"
  let ?r = "{(j, t). 0 \<le> j \<and> j < ?b \<and> 0 \<le> t \<and> t < ?b \<and> ?nh ! nat j = t}"
  have "?r \<subseteq> lower_rel (rho (points alg))"
  proof (clarify)
    fix j :: int
    assume j: "0 \<le> j" "j < ?b" and t: "0 \<le> ?nh ! nat j"
    from j fl have "nat j < nat (n (points alg))" by (auto split: if_splits)
    from calculateDistanceToHigher_spec [OF run this]
    have "nearestHigherOf ops dphi Ndim tiles (dm_of alg) (nat j) alg =
        Inr (delta (points alg') ! nat j, ?nh ! nat j)"
      by simp
    from nearestHigherOf_higher [OF this] t j
    show "(j, ?nh ! nat j) \<in> lower_rel (rho (points alg))"
      by (simp add: lower_rel_def)
  qed
  moreover have "?r \<subseteq> {0..<?b} \<times> {0..<?b}"
    by auto
  ultimately have "wf ?r"
    by (rule wf_follower_rel)
  moreover have "\<forall>t j. 0 \<le> t \<and> t < ?b \<and> j \<in> set (fl ! nat t) \<longrightarrow>
      (j, t) \<in> ?r \<and> 0 \<le> j \<and> j < ?b"
    using inverse by blast
  moreover have "length ci = length fl"
    using fl ci by simp
  ultimately have "\<exists>ci'. expandClusters fl ci localStack = Some (Inr ci') \<and> length ci' = length fl"
    using stack by (rule expandClusters_terminates)
  then show ?thesis
    using fl ci by simp
qed

theorem expansion_terminates_witness:
  "calculateDistanceToHigher oneBin plainDiff 1 three_tiles three_points = Inr three_searched \<and>
   length [[], [0], [] :: int list] = nat (n (points three_points)) \<and>
   length [- 1, 0, - 1 :: int] = nat (n (points three_points)) \<and>
   nearestHigher (points three_searched) ! nat 0 = 1 \<and>
   expandClusters [[], [0], []] [- 1, 0, - 1] [1] = Some (Inr [0, 0, - 1])"
proof -
  have run: "calculateDistanceToHigher oneBin plainDiff 1 three_tiles three_points =
      Inr three_searched"
    by (simp add: search_defs three_points_def three_searched_def three_tiles_def
        rounding sqrt_values upt_conv_Cons)
  have fl: "length [[], [0], [] :: int list] = nat (n (points three_points))"
    and ci: "length [- 1, 0, - 1 :: int] = nat (n (points three_points))"
    by (simp_all add: three_points_def)
  have nh: "nearestHigher (points three_searched) ! nat 0 = 1"
    by (simp add: three_searched_def)
  have inverse: "\<forall>t j. 0 \<le> t \<and> t < int (length [[], [0], [] :: int list]) \<and>
        j \<in> set ([[], [0], []] ! nat t) \<longrightarrow>
        0 \<le> j \<and> j < int (length [[], [0], [] :: int list]) \<and>
        nearestHigher (points three_searched) ! nat j = t"
  proof (intro allI impI)
    fix t j :: int
    assume a: "0 \<le> t \<and> t < int (length [[], [0], [] :: int list]) \<and>
        j \<in> set ([[], [0], []] ! nat t)"
    then have "t = 0 \<or> t = 1 \<or> t = 2" by auto
    with a have "t = 1 \<and> j = 0" by auto
    then show "0 \<le> j \<and> j < int (length [[], [0], [] :: int list]) \<and>
        nearestHigher (points three_searched) ! nat j = t"
      using nh by simp
  qed
  have stack: "\<forall>s\<in>set [1 :: int]. 0 \<le> s \<and> s < int (length [[], [0], [] :: int list])"
    by simp
  have val: "expandClusters [[], [0], []] [- 1, 0, - 1] [1] = Some (Inr [0, 0, - 1])"
    by (simp add: expandClusters.simps read_at_def write_at_def passId_def)
  from expansion_terminates [OF run fl ci inverse stack] run fl ci nh val
  show ?thesis
    by simp
qed
subsection \<open>The classification of the points\<close>

lemma classified_0:
  "classified alg 0 = (alg, 0, [])"
proof -
  have "followers_after alg 0 = followers (points alg)"
    "clusterIndex_after alg 0 = clusterIndex (points alg)"
    "isSeed_after alg 0 = isSeed (points alg)"
    by (simp_all add: followers_after_def clusterIndex_after_def isSeed_after_def map_nth)
  then show ?thesis
    by (simp add: classified_def)
qed

lemma after_lengths [simp]:
  "length (clusterIndex_after alg k) = length (clusterIndex (points alg))"
  "length (isSeed_after alg k) = length (isSeed (points alg))"
  "length (followers_after alg k) = length (followers (points alg))"
  by (simp_all add: followers_after_def clusterIndex_after_def isSeed_after_def)

lemma clusterIndex_after_Suc:
  assumes "k < length (clusterIndex (points alg))"
  shows "clusterIndex_after alg (Suc k) =
    (clusterIndex_after alg k)
      [k := if seedCond alg k then int (length (filter (seedCond alg) [0..<k])) else - 1]"
  using assms
  by (intro nth_equalityI) (auto simp: clusterIndex_after_def nth_list_update less_Suc_eq)

lemma isSeed_after_Suc:
  assumes "k < length (isSeed (points alg))"
  shows "isSeed_after alg (Suc k) =
    (if seedCond alg k then (isSeed_after alg k)[k := 1] else isSeed_after alg k)"
  using assms
  by (auto intro!: nth_equalityI simp: isSeed_after_def nth_list_update less_Suc_eq)

lemma followers_after_Suc:
  assumes "followerCond alg k \<longrightarrow> 0 \<le> nearestHigher (points alg) ! k \<and>
      nearestHigher (points alg) ! k < int (length (followers (points alg)))"
  shows "followers_after alg (Suc k) =
    (if followerCond alg k
     then (followers_after alg k)[nat (nearestHigher (points alg) ! k) :=
            followers_after alg k ! nat (nearestHigher (points alg) ! k) @ [int k]]
     else followers_after alg k)"
  using assms
  by (auto intro!: nth_equalityI simp: followers_after_def nth_list_update)

lemma classifyPoint_step:
  assumes k: "k < nat (n (points alg))"
    and len: "length (rho (points alg)) = nat (n (points alg))"
      "length (delta (points alg)) = nat (n (points alg))"
      "length (nearestHigher (points alg)) = nat (n (points alg))"
      "length (clusterIndex (points alg)) = nat (n (points alg))"
      "length (isSeed (points alg)) = nat (n (points alg))"
      "length (followers (points alg)) = nat (n (points alg))"
    and range: "followerCond alg k \<longrightarrow>
        0 \<le> nearestHigher (points alg) ! k \<and> nearestHigher (points alg) ! k < n (points alg)"
  shows "classifyPoint k (classified alg k) = Inr (classified alg (Suc k))"
proof -
  let ?h = "nearestHigher (points alg) ! k"
  have kn: "int k < n (points alg)" "0 \<le> n (points alg)"
    using k by simp_all
  have ci: "clusterIndex_after alg (Suc k) = (clusterIndex_after alg k)
      [k := if seedCond alg k then int (length (filter (seedCond alg) [0..<k])) else - 1]"
    by (rule clusterIndex_after_Suc) (use k len in simp)
  have sd: "isSeed_after alg (Suc k) =
    (if seedCond alg k then (isSeed_after alg k)[k := 1] else isSeed_after alg k)"
    by (rule isSeed_after_Suc) (use k len in simp)
  have fl: "followers_after alg (Suc k) =
    (if followerCond alg k
     then (followers_after alg k)[nat ?h := followers_after alg k ! nat ?h @ [int k]]
     else followers_after alg k)"
    by (rule followers_after_Suc) (use range len kn in simp)
  have conds: "(fp_less (dc alg) (delta (points alg) ! k) \<and>
        fp_le (rhoc alg) (rho (points alg) ! k)) = seedCond alg k"
    "(fp_less (fp_mul to_float (outlierDeltaFactor alg) (dc alg)) (delta (points alg) ! k) \<and>
        fp_less (rho (points alg) ! k) (rhoc alg)) = outlierCond alg k"
    by (simp_all add: seedCond_def outlierCond_def dm_of_def)
  consider (seed) "seedCond alg k" | (follower) "followerCond alg k"
    | (outlier) "\<not> seedCond alg k" "outlierCond alg k"
    by (auto simp: followerCond_def)
  then show ?thesis
  proof cases
    case seed
    then have "\<not> followerCond alg k" by (simp add: followerCond_def)
    with seed show ?thesis
      using kn len
      by (simp add: classifyPoint_def classified_def read_at_def write_at_def Let_def
          conds ci sd fl)
  next
    case follower
    then have no: "\<not> seedCond alg k" "\<not> outlierCond alg k"
      by (simp_all add: followerCond_def)
    from follower range have h: "0 \<le> ?h" "?h < n (points alg)" by simp_all
    show ?thesis
      using follower no h kn len
      by (simp add: classifyPoint_def classified_def read_at_def write_at_def Let_def
          conds ci sd fl)
  next
    case outlier
    then have "\<not> followerCond alg k" by (simp add: followerCond_def)
    with outlier show ?thesis
      using kn len
      by (simp add: classifyPoint_def classified_def read_at_def write_at_def Let_def
          conds ci sd fl)
  qed
qed

lemma classifyPoints_eq:
  assumes len: "length (rho (points alg)) = nat (n (points alg))"
      "length (delta (points alg)) = nat (n (points alg))"
      "length (nearestHigher (points alg)) = nat (n (points alg))"
      "length (clusterIndex (points alg)) = nat (n (points alg))"
      "length (isSeed (points alg)) = nat (n (points alg))"
      "length (followers (points alg)) = nat (n (points alg))"
    and range: "\<forall>i<nat (n (points alg)). followerCond alg i \<longrightarrow>
        0 \<le> nearestHigher (points alg) ! i \<and> nearestHigher (points alg) ! i < n (points alg)"
  shows "classifyPoints alg = Inr (classified alg (nat (n (points alg))))"
proof -
  have "forEach [0..<k] classifyPoint (alg, 0, []) = Inr (classified alg k)"
    if "k \<le> nat (n (points alg))" for k
    using that
  proof (induction k)
    case 0
    show ?case by (simp add: classified_0)
  next
    case (Suc k)
    then have k: "k < nat (n (points alg))" by simp
    have "classifyPoint k (classified alg k) = Inr (classified alg (Suc k))"
      using k len range by (intro classifyPoint_step) simp_all
    with Suc show ?case
      by (simp add: forEach_append)
  qed
  then show ?thesis
    by (simp add: classifyPoints_def)
qed

text \<open>
  On a new engine. Take an engine whose arrays have length \<open>n\<close>, with \<open>isSeed\<close> all 0
  and \<open>followers\<close> all empty as \<open>setPoints\<close> makes them on a new engine, and in which
  every point that is neither a seed nor an outlier has a \<open>nearestHigher\<close> that is a
  point index. Then the first loop of \<open>findAndAssignClusters\<close> returns, and for every
  point \<open>i\<close>: \<open>isSeed[i] = 1\<close> exactly when \<open>delta[i] > dc\<close> and \<open>rho[i] \<ge> rhoc\<close>;
  a seed holds as cluster index the number of seeds of smaller index; \<open>clusterIndex[i]\<close>
  is \<open>-1\<close> with \<open>i\<close> in no follower list exactly when \<open>i\<close> is not a seed and
  \<open>delta[i]\<close> is above the \<open>float\<close> product \<open>outlierDeltaFactor * dc\<close> and
  \<open>rho[i] < rhoc\<close>; and every other point \<open>i\<close> is in \<open>followers[nearestHigher[i]]\<close>.
  The run of section \<open>Runs of the whole engine\<close> shows what becomes of this on an engine
  that is used again.
\<close>

lemma classification_fresh:
  assumes len: "length (rho (points alg)) = nat (n (points alg))"
      "length (delta (points alg)) = nat (n (points alg))"
      "length (nearestHigher (points alg)) = nat (n (points alg))"
      "length (clusterIndex (points alg)) = nat (n (points alg))"
    and fresh: "isSeed (points alg) = replicate (nat (n (points alg))) 0"
      "followers (points alg) = replicate (nat (n (points alg))) []"
    and range: "\<forall>i<nat (n (points alg)). followerCond alg i \<longrightarrow>
        0 \<le> nearestHigher (points alg) ! i \<and> nearestHigher (points alg) ! i < n (points alg)"
  shows "\<exists>alg1 nClusters localStack.
     classifyPoints alg = Inr (alg1, nClusters, localStack) \<and>
     (\<forall>i<nat (n (points alg)).
        (isSeed (points alg1) ! i = 1 \<longleftrightarrow> seedCond alg i) \<and>
        (seedCond alg i \<longrightarrow>
           clusterIndex (points alg1) ! i = int (length (filter (seedCond alg) [0..<i]))) \<and>
        (clusterIndex (points alg1) ! i = - 1 \<and>
           (\<forall>t<nat (n (points alg)). int i \<notin> set (followers (points alg1) ! t))
         \<longleftrightarrow> \<not> seedCond alg i \<and> outlierCond alg i) \<and>
        (followerCond alg i \<longrightarrow>
           int i \<in> set (followers (points alg1) ! nat (nearestHigher (points alg) ! i))))"
proof -
  let ?N = "nat (n (points alg))"
  let ?alg1 = "fst (classified alg ?N)"
  have run: "classifyPoints alg = Inr (classified alg ?N)"
    using len fresh range by (intro classifyPoints_eq) simp_all
  have sd: "isSeed (points ?alg1) ! i = (if seedCond alg i then 1 else 0)" if "i < ?N" for i
    using that fresh by (simp add: classified_def isSeed_after_def)
  have ci: "clusterIndex (points ?alg1) ! i =
      (if seedCond alg i then int (length (filter (seedCond alg) [0..<i])) else - 1)"
    if "i < ?N" for i
    using that len by (simp add: classified_def clusterIndex_after_def)
  have fl: "int i \<in> set (followers (points ?alg1) ! t) \<longleftrightarrow>
      followerCond alg i \<and> nearestHigher (points alg) ! i = int t"
    if "i < ?N" "t < ?N" for i t
    using that fresh by (auto simp: classified_def followers_after_def)
  have point: "(isSeed (points ?alg1) ! i = 1 \<longleftrightarrow> seedCond alg i) \<and>
        (seedCond alg i \<longrightarrow>
           clusterIndex (points ?alg1) ! i = int (length (filter (seedCond alg) [0..<i]))) \<and>
        (clusterIndex (points ?alg1) ! i = - 1 \<and>
           (\<forall>t<?N. int i \<notin> set (followers (points ?alg1) ! t))
         \<longleftrightarrow> \<not> seedCond alg i \<and> outlierCond alg i) \<and>
        (followerCond alg i \<longrightarrow>
           int i \<in> set (followers (points ?alg1) ! nat (nearestHigher (points alg) ! i)))"
    if i: "i < ?N" for i
  proof (intro conjI)
    show "isSeed (points ?alg1) ! i = 1 \<longleftrightarrow> seedCond alg i"
      using sd [OF i] by simp
    show "seedCond alg i \<longrightarrow>
        clusterIndex (points ?alg1) ! i = int (length (filter (seedCond alg) [0..<i]))"
      using ci [OF i] by simp
    have target: "nat (nearestHigher (points alg) ! i) < ?N \<and>
        int (nat (nearestHigher (points alg) ! i)) = nearestHigher (points alg) ! i"
      if "followerCond alg i"
      using that range i by auto
    show "followerCond alg i \<longrightarrow>
        int i \<in> set (followers (points ?alg1) ! nat (nearestHigher (points alg) ! i))"
    proof
      assume f: "followerCond alg i"
      from target [OF f] fl [OF i, of "nat (nearestHigher (points alg) ! i)"] f
      show "int i \<in> set (followers (points ?alg1) ! nat (nearestHigher (points alg) ! i))"
        by simp
    qed
    show "clusterIndex (points ?alg1) ! i = - 1 \<and>
        (\<forall>t<?N. int i \<notin> set (followers (points ?alg1) ! t))
      \<longleftrightarrow> \<not> seedCond alg i \<and> outlierCond alg i"
    proof
      assume lhs: "clusterIndex (points ?alg1) ! i = - 1 \<and>
        (\<forall>t<?N. int i \<notin> set (followers (points ?alg1) ! t))"
      then have "\<not> seedCond alg i"
        using ci [OF i] by (auto split: if_splits)
      moreover have "\<not> followerCond alg i"
      proof
        assume f: "followerCond alg i"
        let ?t = "nat (nearestHigher (points alg) ! i)"
        from target [OF f] have t: "?t < ?N" "int ?t = nearestHigher (points alg) ! i"
          by simp_all
        from fl [OF i t(1)] f t(2) have "int i \<in> set (followers (points ?alg1) ! ?t)"
          by simp
        with lhs t(1) show False
          by blast
      qed
      ultimately show "\<not> seedCond alg i \<and> outlierCond alg i"
        by (simp add: followerCond_def)
    next
      assume rhs: "\<not> seedCond alg i \<and> outlierCond alg i"
      then have "\<not> followerCond alg i" by (simp add: followerCond_def)
      then show "clusterIndex (points ?alg1) ! i = - 1 \<and>
        (\<forall>t<?N. int i \<notin> set (followers (points ?alg1) ! t))"
        using rhs ci [OF i] fl [OF i] by auto
    qed
  qed
  obtain alg1 nClusters localStack where c: "classified alg ?N = (alg1, nClusters, localStack)"
    by (cases "classified alg ?N") auto
  then have "?alg1 = alg1" by simp
  with point run c show ?thesis
    by (intro exI [of _ alg1] exI [of _ nClusters] exI [of _ localStack]) simp
qed

lemma classification_fresh_example:
  "length (rho (points three_searched)) = nat (n (points three_searched)) \<and>
   isSeed (points three_searched) = replicate (nat (n (points three_searched))) 0 \<and>
   followers (points three_searched) = replicate (nat (n (points three_searched))) [] \<and>
   seedCond three_searched 1 \<and> outlierCond three_searched 2 \<and> followerCond three_searched 0 \<and>
   classifyPoints three_searched =
     Inr (three_searched\<lparr>points := (points three_searched)
            \<lparr>followers := [[], [0], []], clusterIndex := [- 1, 0, - 1], isSeed := [0, 1, 0]\<rparr>\<rparr>,
          1, [1])"
proof -
  have len: "length (rho (points three_searched)) = nat (n (points three_searched))"
    "length (delta (points three_searched)) = nat (n (points three_searched))"
    "length (nearestHigher (points three_searched)) = nat (n (points three_searched))"
    "length (clusterIndex (points three_searched)) = nat (n (points three_searched))"
    by (simp_all add: three_searched_def three_points_def)
  have fresh: "isSeed (points three_searched) = replicate (nat (n (points three_searched))) 0"
    "followers (points three_searched) = replicate (nat (n (points three_searched))) []"
    by (simp_all add: three_searched_def three_points_def numeral_3_eq_3)
  have conds: "seedCond three_searched 1" "outlierCond three_searched 2"
    "followerCond three_searched 0" "\<not> followerCond three_searched 1"
    "\<not> followerCond three_searched 2"
    by (simp_all add: seedCond_def outlierCond_def followerCond_def dm_of_def three_searched_def
        three_points_def rounding)
  have range: "\<forall>i<nat (n (points three_searched)). followerCond three_searched i \<longrightarrow>
      0 \<le> nearestHigher (points three_searched) ! i \<and>
      nearestHigher (points three_searched) ! i < n (points three_searched)"
  proof (intro allI impI)
    fix i
    assume "i < nat (n (points three_searched))" and f: "followerCond three_searched i"
    then have "i = 0 \<or> i = 1 \<or> i = 2"
      by (auto simp: three_searched_def three_points_def)
    with f conds have "i = 0" by auto
    then show "0 \<le> nearestHigher (points three_searched) ! i \<and>
        nearestHigher (points three_searched) ! i < n (points three_searched)"
      by (simp add: three_searched_def three_points_def)
  qed
  have val: "classifyPoints three_searched =
     Inr (three_searched\<lparr>points := (points three_searched)
            \<lparr>followers := [[], [0], []], clusterIndex := [- 1, 0, - 1], isSeed := [0, 1, 0]\<rparr>\<rparr>,
          1, [1])"
    by (simp add: classifyPoints_def classifyPoint_def three_searched_def three_points_def
        read_at_def write_at_def rounding upt_conv_Cons)
  from classification_fresh [OF len fresh range] len fresh conds val
  show ?thesis
    by simp
qed

subsection \<open>From the search to the clusters\<close>

text \<open>
  When \<open>dc\<close> and \<open>dm\<close> are below \<open>FLT_MAX\<close> and neither \<open>rhoc\<close> nor a density is a
  NaN, a point for which the search found nothing has \<open>delta = FLT_MAX\<close> and is a seed or
  an outlier, so every follower has a \<open>nearestHigher\<close> that is a point index. On
  follower lists that start empty, the whole of \<open>findAndAssignClusters\<close> then returns.
\<close>

lemma nearestHigherOf_none:
  assumes run: "nearestHigherOf ops dphi Ndim tiles dm i alg = Inr (d, h)"
    and h: "h = - 1"
  shows "d = Fin FLT_MAX"
proof -
  from run obtain search_box where
    scan: "forEach (candidates ops tiles search_box)
        (higherStep dphi Ndim alg dm i (rho (points alg) ! i)) (Fin FLT_MAX, - 1) = Inr (d, h)"
    by (auto simp: nearestHigherOf_def bind_Inr_iff read_at_Inr_iff forEach_concat candidates_def)
  let ?cs = "candidates ops tiles search_box"
  from scan_pure [OF scan] have
    valid: "\<forall>j\<in>set ?cs. 0 \<le> j"
    and fold: "foldl (pstep (inNeighbourhood dphi Ndim alg dm i) (distv dphi Ndim alg i))
        (Fin FLT_MAX, - 1) ?cs = (d, h)"
    by simp_all
  have "Fin FLT_MAX \<noteq> NaN"
    by simp
  moreover have "\<forall>j\<in>set ?cs. inNeighbourhood dphi Ndim alg dm i j \<longrightarrow>
      distv dphi Ndim alg i j \<noteq> NaN"
    using inNeighbourhood_distv by blast
  ultimately show ?thesis
    using pscan [OF fold] valid h by (auto split: if_splits)
qed

lemma search_gives_targets:
  assumes run: "calculateDistanceToHigher ops dphi Ndim tiles alg = Inr alg'"
    and len: "length (rho (points alg)) = nat (n (points alg))"
    and dc: "fp_less (dc alg) (Fin FLT_MAX)"
    and dm: "fp_less (dm_of alg) (Fin FLT_MAX)"
    and rhoc: "rhoc alg \<noteq> NaN"
    and i: "i < nat (n (points alg))"
    and rho: "rho (points alg) ! i \<noteq> NaN"
    and f: "followerCond alg' i"
  shows "0 \<le> nearestHigher (points alg') ! i \<and> nearestHigher (points alg') ! i < n (points alg')"
proof -
  from higherPoints_spec [of "nat (n (points alg))" ops dphi Ndim tiles "dm_of alg" alg alg'] run
  obtain ds hs where alg': "alg' = alg\<lparr>points := (points alg)\<lparr>delta := ds, nearestHigher := hs\<rparr>\<rparr>"
    by (auto simp: calculateDistanceToHigher_def dm_of_def Let_def)
  from calculateDistanceToHigher_spec [OF run i] have
    res: "nearestHigherOf ops dphi Ndim tiles (dm_of alg) i alg =
       Inr (delta (points alg') ! i, nearestHigher (points alg') ! i)"
    by simp
  have "nearestHigher (points alg') ! i \<noteq> - 1"
  proof
    assume "nearestHigher (points alg') ! i = - 1"
    from nearestHigherOf_none [OF res this] have "delta (points alg') ! i = Fin FLT_MAX" .
    moreover have "fp_le (rhoc alg) (rho (points alg) ! i) \<or> fp_less (rho (points alg) ! i) (rhoc alg)"
      using rhoc rho by (rule fp_le_or_less)
    ultimately show False
      using f dc dm by (auto simp: followerCond_def seedCond_def outlierCond_def dm_of_def alg')
  qed
  from nearestHigherOf_higher [OF res this] len i show ?thesis
    by (auto simp: alg' split: if_splits)
qed

lemma search_links_lower:
  assumes run: "calculateDistanceToHigher ops dphi Ndim tiles alg = Inr alg'"
  shows "{(j, t). 0 \<le> j \<and> j < n (points alg) \<and> 0 \<le> t \<and> nearestHigher (points alg') ! nat j = t}
     \<subseteq> lower_rel (rho (points alg))"
proof (clarify)
  fix j :: int
  assume j: "0 \<le> j" "j < n (points alg)" and t: "0 \<le> nearestHigher (points alg') ! nat j"
  from j have "nat j < nat (n (points alg))" by simp
  from calculateDistanceToHigher_spec [OF run this]
  have "nearestHigherOf ops dphi Ndim tiles (dm_of alg) (nat j) alg =
      Inr (delta (points alg') ! nat j, nearestHigher (points alg') ! nat j)"
    by simp
  from nearestHigherOf_higher [OF this] t j
  show "(j, nearestHigher (points alg') ! nat j) \<in> lower_rel (rho (points alg))"
    by (simp add: lower_rel_def)
qed

lemma findAndAssignClusters_returns:
  assumes run: "calculateDistanceToHigher ops dphi Ndim tiles alg = Inr alg'"
    and len: "length (rho (points alg)) = nat (n (points alg))"
      "length (delta (points alg)) = nat (n (points alg))"
      "length (nearestHigher (points alg)) = nat (n (points alg))"
      "length (clusterIndex (points alg)) = nat (n (points alg))"
      "length (isSeed (points alg)) = nat (n (points alg))"
    and fresh: "followers (points alg) = replicate (nat (n (points alg))) []"
    and dc: "fp_less (dc alg) (Fin FLT_MAX)"
    and dm: "fp_less (dm_of alg) (Fin FLT_MAX)"
    and rhoc: "rhoc alg \<noteq> NaN"
    and rho: "\<forall>i<nat (n (points alg)). rho (points alg) ! i \<noteq> NaN"
  shows "\<exists>alg2. findAndAssignClusters alg' = Some (Inr alg2)"
proof -
  let ?N = "nat (n (points alg))"
  let ?nh = "nearestHigher (points alg')"
  from higherPoints_spec [of ?N ops dphi Ndim tiles "dm_of alg" alg alg'] run
  obtain ds hs where alg': "alg' = alg\<lparr>points := (points alg)\<lparr>delta := ds, nearestHigher := hs\<rparr>\<rparr>"
    and lens: "length ds = length (delta (points alg))"
      "length hs = length (nearestHigher (points alg))"
    by (auto simp: calculateDistanceToHigher_def dm_of_def Let_def)
  have n': "n (points alg') = n (points alg)"
    by (simp add: alg')
  have targets: "\<forall>i<nat (n (points alg')). followerCond alg' i \<longrightarrow>
      0 \<le> ?nh ! i \<and> ?nh ! i < n (points alg')"
    using search_gives_targets [OF run len(1) dc dm rhoc] rho by (simp add: n')
  have classify: "classifyPoints alg' = Inr (classified alg' ?N)"
    using classifyPoints_eq [of alg'] targets len lens fresh by (simp add: alg')
  let ?fl = "followers_after alg' ?N"
  let ?ci = "clusterIndex_after alg' ?N"
  let ?st = "map int (filter (seedCond alg') [0..<?N])"
  let ?r = "{(j, t). 0 \<le> j \<and> j < n (points alg) \<and> 0 \<le> t \<and> ?nh ! nat j = t}"
  have lfl: "length ?fl = ?N"
    using fresh by (simp add: alg')
  have member: "j \<in> set (?fl ! nat t) \<longleftrightarrow>
      (\<exists>i<?N. j = int i \<and> followerCond alg' i \<and> ?nh ! i = t)"
    if t: "0 \<le> t" "t < int ?N" for j t
  proof -
    from t have nt: "nat t < ?N"
      by (auto split: if_splits)
    have "followers (points alg') = replicate ?N []"
      using fresh by (simp add: alg')
    with nt have "?fl ! nat t =
        map int (filter (\<lambda>i. followerCond alg' i \<and> ?nh ! i = int (nat t)) [0..<?N])"
      by (simp add: followers_after_def)
    with t(1) show ?thesis
      by auto
  qed
  have "wf ?r"
  proof (rule wf_follower_rel)
    show "?r \<subseteq> lower_rel (rho (points alg))"
      using run by (rule search_links_lower)
    have "?nh ! nat j < n (points alg)"
      if j: "0 \<le> j" "j < n (points alg)" and t: "0 \<le> ?nh ! nat j" for j
    proof -
      from j have "nat j < ?N" by simp
      from calculateDistanceToHigher_spec [OF run this]
      have "nearestHigherOf ops dphi Ndim tiles (dm_of alg) (nat j) alg =
          Inr (delta (points alg') ! nat j, ?nh ! nat j)"
        by simp
      from nearestHigherOf_higher [OF this] t len(1) show ?thesis
        by (auto split: if_splits)
    qed
    then show "?r \<subseteq> {0..<n (points alg)} \<times> {0..<n (points alg)}"
      by auto
  qed
  moreover have "\<forall>t j. 0 \<le> t \<and> t < int (length ?fl) \<and> j \<in> set (?fl ! nat t) \<longrightarrow>
      (j, t) \<in> ?r \<and> 0 \<le> j \<and> j < int (length ?fl)"
    using member lfl by auto
  moreover have "length ?ci = length ?fl"
    using len lfl by (simp add: alg')
  moreover have "\<forall>s\<in>set ?st. 0 \<le> s \<and> s < int (length ?fl)"
    using lfl by auto
  ultimately obtain ci' where "expandClusters ?fl ?ci ?st = Some (Inr ci')"
    using expandClusters_terminates [of ?r ?fl ?ci ?st] by blast
  then show ?thesis
    using classify by (simp add: findAndAssignClusters_def classified_def)
qed
subsection \<open>The search box at the ends of a domain\<close>





subsection \<open>The number of tiles per dimension\<close>

text \<open>
  With one dimension \<open>NperDim\<close> is \<open>NTiles\<close>. With three dimensions and 64 tiles the
  exponent is the \<open>double\<close> nearest to 1/3, the power is the \<open>double\<close> just below 4, and
  \<open>NperDim\<close> is 3. With no dimension the exponent is \<open>+infinity\<close>, and so is the power
  of 5.
\<close>

lemma root_to_int_examples:
  "root_to_int 64 1 = Inr 64" "root_to_int 64 3 = Inr 3" "root_to_int 0 1 = Inr 0"
  "root_to_int 5 0 = Inl FloatToInt"
proof -
  have third: "to_double (1 / 3) = Fin (6004799503160661 / 18014398509481984)"
    by (simp add: rounding)
  show "root_to_int 64 3 = Inr 3"
    using to_double_cube_root_64
    by (simp add: root_to_int_def third pow_double_def to_int_def)
  show "root_to_int 64 1 = Inr 64" "root_to_int 0 1 = Inr 0" "root_to_int 5 0 = Inl FloatToInt"
    by (simp_all add: root_to_int_def pow_double_def to_int_def rounding)
qed

subsection \<open>Runs of the whole engine\<close>

lemmas engine_defs = makeClusters_def calculateNTiles_def calculateTileSize_def root_to_int_def
  to_int_def pow_double_def max_element_def min_element_def
  prepareDataStructures_def calculateLocalDensity_def densityStep_def
  calculateDistanceToHigher_def higherPoint_def nearestHigherOf_def higherStep_def
  findAndAssignClusters_def classifyPoints_def classifyPoint_def passId_def
  get_search_box_def get_xjBins_def searchBins_def distance_def
  read_at_def write_at_def signed_divide_int_def
  oneBin_def plainDiff_def flatKernel_def domain_default_def rounding sqrt_values

text \<open>The three points of the examples through the whole of \<open>makeClusters\<close>: of the
  two near points, equally dense, the one of smaller index follows the other, which is the
  seed of cluster 0; the far point is an outlier.\<close>

lemma pipeline_three_points:
  "makeClusters oneBin plainDiff 1 flatKernel
     (three_points\<lparr>points := (points three_points)\<lparr>rho := [Fin 0, Fin 0, Fin 0]\<rparr>\<rparr>) =
   Some (Inr (([0, 0, - 1], [0, 1, 0]),
     three_searched\<lparr>points := (points three_searched)
       \<lparr>followers := [[], [0], []], clusterIndex := [0, 0, - 1], isSeed := [0, 1, 0]\<rparr>\<rparr>,
     []))"
  by (simp add: engine_defs three_points_def three_searched_def expandClusters.simps upt_conv_Cons)

text \<open>
  C2. The claim asks that after \<open>findAndAssignClusters\<close> a point is marked a seed exactly
  when \<open>delta[i] > dc\<close> and \<open>rho[i] \<ge> rhoc\<close>. An engine is built with \<open>dc = 1\<close>,
  \<open>rhoc = 1/2\<close>, \<open>outlierDeltaFactor = 2\<close>, two points per tile and the default domain,
  and run with the one-bin grid, plain subtraction and the kernel 1. On the points 0 and
  10 of weight 1, \<open>makeClusters\<close> makes both points seeds. After \<open>setPoints\<close> with the
  points 0 and 1/2, the second \<open>makeClusters\<close> enters \<open>findAndAssignClusters\<close> with
  \<open>delta[0] = 1/2\<close>, which is not above \<open>dc\<close>: point 0 is no seed, and is registered as
  a follower of point 1; yet \<open>isSeed[0]\<close> is 1 after the call, because the loop writes
  \<open>isSeed\<close> for seeds only and nothing puts back the 1 of the first run.
\<close>

theorem reused_engine_classification:
  "setPoints (ClusteringAlgo_new (Fin 1) (Fin (1 / 2)) (Fin 2) 2 [domain_default]) 2
       [[Fin 0, Fin 10]] [Fin 1, Fin 1]
     = Inr (False, far_pair) \<and>
   makeClusters oneBin plainDiff 1 flatKernel far_pair
     = Some (Inr (([0, 1], [1, 1]), far_pair_done, [])) \<and>
   setPoints far_pair_done 2 [[Fin 0, Fin (1 / 2)]] [Fin 1, Fin 1]
     = Inr (False, near_pair) \<and>
   bind (calculateLocalDensity oneBin plainDiff 1 flatKernel [0, 1] near_pair)
       (calculateDistanceToHigher oneBin plainDiff 1 [0, 1])
     = Inr near_pair_searched \<and>
   findAndAssignClusters near_pair_searched = Some (Inr near_pair_done) \<and>
   makeClusters oneBin plainDiff 1 flatKernel near_pair
     = Some (Inr (([0, 0], [1, 1]), near_pair_done, [])) \<and>
   delta (points near_pair_searched) ! 0 = Fin (1 / 2) \<and>
   \<not> seedCond near_pair_searched 0 \<and>
   followerCond near_pair_searched 0 \<and>
   followers (points near_pair_done) ! 1 = [0] \<and>
   isSeed (points near_pair_done) ! 0 = 1"
proof (intro conjI)
  show "setPoints (ClusteringAlgo_new (Fin 1) (Fin (1 / 2)) (Fin 2) 2 [domain_default]) 2
       [[Fin 0, Fin 10]] [Fin 1, Fin 1]
     = Inr (False, far_pair)"
    by (simp add: setPoints_def ClusteringAlgo_new_def no_points_def far_pair_def
        resize_def Let_def numeral_2_eq_2)
  show "makeClusters oneBin plainDiff 1 flatKernel far_pair
     = Some (Inr (([0, 1], [1, 1]), far_pair_done, []))"
    by (simp add: engine_defs far_pair_def far_pair_done_def expandClusters.simps upt_conv_Cons)
  show "setPoints far_pair_done 2 [[Fin 0, Fin (1 / 2)]] [Fin 1, Fin 1]
     = Inr (False, near_pair)"
    by (simp add: setPoints_def far_pair_def far_pair_done_def near_pair_def resize_def Let_def)
  show "bind (calculateLocalDensity oneBin plainDiff 1 flatKernel [0, 1] near_pair)
       (calculateDistanceToHigher oneBin plainDiff 1 [0, 1])
     = Inr near_pair_searched"
    by (simp add: engine_defs far_pair_def far_pair_done_def near_pair_def near_pair_searched_def
        upt_conv_Cons)
  show "findAndAssignClusters near_pair_searched = Some (Inr near_pair_done)"
    by (simp add: engine_defs far_pair_def far_pair_done_def near_pair_def near_pair_searched_def
        near_pair_done_def expandClusters.simps upt_conv_Cons)
  show "makeClusters oneBin plainDiff 1 flatKernel near_pair
     = Some (Inr (([0, 0], [1, 1]), near_pair_done, []))"
    by (simp add: engine_defs far_pair_def far_pair_done_def near_pair_def near_pair_searched_def
        near_pair_done_def expandClusters.simps upt_conv_Cons)
  show "delta (points near_pair_searched) ! 0 = Fin (1 / 2)"
    by (simp add: near_pair_searched_def)
  show "\<not> seedCond near_pair_searched 0"
    by (simp add: seedCond_def near_pair_searched_def near_pair_def far_pair_done_def
        far_pair_def fp_less_def)
  show "followerCond near_pair_searched 0"
    by (simp add: followerCond_def seedCond_def outlierCond_def dm_of_def near_pair_searched_def
        near_pair_def far_pair_done_def far_pair_def rounding)
  show "followers (points near_pair_done) ! 1 = [0]"
    by (simp add: near_pair_done_def)
  show "isSeed (points near_pair_done) ! 0 = 1"
    by (simp add: near_pair_done_def near_pair_searched_def near_pair_def far_pair_done_def)
qed

text \<open>
  C3. The claim asks that a second \<open>makeClusters\<close> with nothing changed returns the
  arrays of the first. On the engine built with \<open>dc = 1\<close>, \<open>rhoc = 3/2\<close>,
  \<open>outlierDeltaFactor = 2\<close>, one point per tile and the default domain, holding the
  single point 0 of weight 1, with the one-bin grid, plain subtraction and the kernel 1:
  the first call leaves \<open>rho = [1]\<close> and returns \<open>([-1], [0])\<close>; the second call adds to
  the stored \<open>rho\<close>, finds \<open>rho = [2] \<ge> rhoc\<close>, and returns \<open>([0], [1])\<close>.
\<close>

theorem makeClusters_second_call:
  "setPoints (ClusteringAlgo_new (Fin 1) (Fin (3 / 2)) (Fin 2) 1 [domain_default]) 1
       [[Fin 0]] [Fin 1]
     = Inr (False, one_point) \<and>
   makeClusters oneBin plainDiff 1 flatKernel one_point
     = Some (Inr (([- 1], [0]), one_point_once, [])) \<and>
   makeClusters oneBin plainDiff 1 flatKernel one_point_once
     = Some (Inr (([0], [1]), one_point_twice, []))"
proof (intro conjI)
  show "setPoints (ClusteringAlgo_new (Fin 1) (Fin (3 / 2)) (Fin 2) 1 [domain_default]) 1
       [[Fin 0]] [Fin 1]
      = Inr (False, one_point)"
    by (simp add: setPoints_def ClusteringAlgo_new_def no_points_def one_point_def
        resize_def Let_def)
  show "makeClusters oneBin plainDiff 1 flatKernel one_point
      = Some (Inr (([- 1], [0]), one_point_once, []))"
    by (simp add: engine_defs one_point_def one_point_once_def expandClusters.simps)
  show "makeClusters oneBin plainDiff 1 flatKernel one_point_once
      = Some (Inr (([0], [1]), one_point_twice, []))"
    by (simp add: engine_defs one_point_def one_point_once_def one_point_twice_def
        expandClusters.simps)
qed

text \<open>
  C4. The claim asks that \<open>setPoints\<close> with \<open>n > 0\<close> puts every output array back to
  its default. On the engine that two calls of \<open>makeClusters\<close> left above, whose arrays
  have length 1, \<open>setPoints(1, {{0}}, {1})\<close> returns false and changes nothing:
  \<open>rho\<close> stays \<open>[2]\<close>, \<open>clusterIndex\<close> stays \<open>[0]\<close> and \<open>isSeed\<close> stays \<open>[1]\<close>.
\<close>

theorem setPoints_keeps_outputs:
  "setPoints one_point_twice 1 [[Fin 0]] [Fin 1] = Inr (False, one_point_twice) \<and>
   rho (points one_point_twice) = [Fin 2] \<and>
   clusterIndex (points one_point_twice) = [0] \<and>
   isSeed (points one_point_twice) = [1]"
  by (simp add: setPoints_def one_point_def one_point_twice_def resize_def Let_def)

text \<open>
  C5. The claim asks for an error returned to the caller before any grid is built when
  \<open>pointsPerTile\<close> exceeds the number of points. With one point and two points per tile,
  \<open>calculateNTiles\<close> returns 0 after printing, \<open>calculateTileSize\<close> on 0 tiles divides
  0 by \<open>NperDim = 0\<close>, which gives a NaN, the point is filled into the grid, and on the
  one-bin grid \<open>makeClusters\<close> returns cluster arrays; the printed line is all that tells
  of it.
\<close>

theorem makeClusters_zero_tiles:
  "calculateNTiles too_few (pointsPerTile too_few) = Inr (0, [tooHigh]) \<and>
   calculateTileSize ops 1 too_few 0 t = Inr ([NaN], set_minMax ops t 0 (Fin 0, Fin 0)) \<and>
   prepareDataStructures ops 1 too_few t = Inr (fill ops t [Fin 0] 0) \<and>
   makeClusters oneBin plainDiff 1 flatKernel too_few =
     Some (Inr (([0], [1]),
       too_few\<lparr>points := (points too_few)\<lparr>rho := [Fin 1], clusterIndex := [0], isSeed := [1]\<rparr>\<rparr>,
       [tooHigh]))"
proof (intro conjI)
  show "calculateNTiles too_few (pointsPerTile too_few) = Inr (0, [tooHigh])"
    by (simp add: calculateNTiles_def too_few_def one_point_def signed_divide_int_def Let_def)
  show "calculateTileSize ops 1 too_few 0 t = Inr ([NaN], set_minMax ops t 0 (Fin 0, Fin 0))"
    by (simp add: calculateTileSize_def root_to_int_def to_int_def pow_double_def
        max_element_def min_element_def too_few_def one_point_def read_at_def rounding)
  show "prepareDataStructures ops 1 too_few t = Inr (fill ops t [Fin 0] 0)"
    by (simp add: prepareDataStructures_def too_few_def one_point_def read_at_def)
  show "makeClusters oneBin plainDiff 1 flatKernel too_few =
     Some (Inr (([0], [1]),
       too_few\<lparr>points := (points too_few)\<lparr>rho := [Fin 1], clusterIndex := [0], isSeed := [1]\<rparr>\<rparr>,
       [tooHigh]))"
    by (simp add: engine_defs too_few_def one_point_def expandClusters.simps)
qed

text \<open>
  C6. The claim asks that \<open>makeClusters\<close> on an empty point set returns two empty
  arrays. After \<open>setPoints(0, {{}}, {})\<close>, which returns true, \<open>makeClusters\<close> prints
  the line of \<open>calculateNTiles\<close> (0 points give 0 tiles) and then, in
  \<open>calculateTileSize\<close>, dereferences \<open>max_element\<close> of an empty range, for every
  grid, kernel and coordinate difference.
\<close>

theorem makeClusters_empty_set:
  "setPoints (ClusteringAlgo_new (Fin 1) (Fin (1 / 2)) (Fin 2) 1 [domain_default]) 0 [[]] []
     = Inr (True, empty_set) \<and>
   calculateNTiles empty_set (pointsPerTile empty_set) = Inr (0, [tooHigh]) \<and>
   makeClusters ops dphi 1 ker empty_set = Some (Inl EmptyRange)"
proof (intro conjI)
  show "setPoints (ClusteringAlgo_new (Fin 1) (Fin (1 / 2)) (Fin 2) 1 [domain_default]) 0 [[]] []
      = Inr (True, empty_set)"
    by (simp add: setPoints_def ClusteringAlgo_new_def no_points_def empty_set_def Let_def)
  show "calculateNTiles empty_set (pointsPerTile empty_set) = Inr (0, [tooHigh])"
    by (simp add: calculateNTiles_def empty_set_def no_points_def Let_def)
  show "makeClusters ops dphi 1 ker empty_set = Some (Inl EmptyRange)"
    by (simp add: makeClusters_def calculateNTiles_def calculateTileSize_def root_to_int_def
        to_int_def pow_double_def empty_set_def no_points_def read_at_def rounding)
qed

end
